theory Spec2Isabelle
  imports Main "HOL-Library.Monad_Syntax" "HOL-Library.Finite_Map" "HOL-Library.Sublist"
begin

section \<open>The Deployment mutators of pkg/reconcilers/deployment.go\<close>

text \<open>
  The Go code mutates the existing Deployment through a pointer and returns
  \<^verbatim>\<open>(bool, error)\<close>. The embedding passes the state explicitly: a mutator takes
  the desired and the existing Deployment and returns the existing Deployment as it
  is left, the changed flag and the error (\<open>None\<close> for Go's \<^verbatim>\<open>nil\<close>). An index
  out of range is a run-time panic in Go; a function that can reach one returns an
  \<open>option\<close>, and \<open>None\<close> is the panic.

  \<^verbatim>\<open>reflect.DeepEqual\<close> is modelled by equality, and the types are chosen so that
  the two agree. A Go slice is a \<open>slice\<close>: \<open>None\<close> is the \<^verbatim>\<open>nil\<close> slice and
  \<open>Some xs\<close> a slice that is not \<^verbatim>\<open>nil\<close>, with \<open>Some []\<close> the empty one, which
  \<^verbatim>\<open>reflect.DeepEqual\<close> tells from \<^verbatim>\<open>nil\<close>; a pointer is an \<open>option\<close>. The structs of
  \<^verbatim>\<open>k8s.io/api/core/v1\<close> have more fields than deployment.go reads or writes; each
  record has the fields the code uses and one field (\<open>c_Other\<close>, \<open>vm_Other\<close>, ...) that
  stands for all the others taken together, so that two records are equal exactly when
  the structs are deeply equal.

  The path \<^verbatim>\<open>Spec.Template.Spec\<close> is flattened: \<open>Containers d\<close> stands for
  \<^verbatim>\<open>d.Spec.Template.Spec.Containers\<close>, \<open>Annotations d\<close> for
  \<^verbatim>\<open>d.ObjectMeta.Annotations\<close>, \<open>TemplateLabels d\<close> and \<open>TemplateAnnotations d\<close> for
  \<^verbatim>\<open>d.Spec.Template.Labels\<close> and \<^verbatim>\<open>d.Spec.Template.Annotations\<close>. The three maps
  are finite maps; no function of deployment.go compares them.
\<close>

subsection \<open>Slices\<close>

type_synonym 'a slice = "'a list option"

text \<open>The elements of a slice, \<^verbatim>\<open>len\<close>, and indexing, where \<open>None\<close> is the panic.\<close>

definition elems :: "'a slice \<Rightarrow> 'a list" where
  "elems s = (case s of None \<Rightarrow> [] | Some xs \<Rightarrow> xs)"

definition len :: "'a slice \<Rightarrow> nat" where
  "len s = length (elems s)"

definition at :: "'a list \<Rightarrow> nat \<Rightarrow> 'a option" where
  "at xs i = (if i < length xs then Some (xs ! i) else None)"

text \<open>
  A slice whose elements were assigned in place, through indices in range: the elements
  are the new ones and the slice is \<^verbatim>\<open>nil\<close> or not as before (a \<^verbatim>\<open>nil\<close> slice has
  no index in range, so its new elements are none).
\<close>

definition with_elems :: "'a slice \<Rightarrow> 'a list \<Rightarrow> 'a slice" where
  "with_elems s xs = (case s of None \<Rightarrow> None | Some _ \<Rightarrow> Some xs)"

text \<open>\<^verbatim>\<open>append(s, x)\<close> is never \<^verbatim>\<open>nil\<close>.\<close>

definition append1 :: "'a slice \<Rightarrow> 'a \<Rightarrow> 'a slice" where
  "append1 s x = Some (elems s @ [x])"

subsection \<open>Data model\<close>

record EnvVar =
  ev_Name :: string
  ev_Value :: string
  ev_ValueFrom :: "string option"

record VolumeMount =
  vm_Name :: string
  vm_MountPath :: string
  vm_Other :: string

record Volume =
  v_Name :: string
  v_Source :: string

record Probe =
  p_Handler :: string
  p_Other :: string

record ResourceRequirements =
  r_Limits :: "(string, string) fmap option"
  r_Requests :: "(string, string) fmap option"
  r_Other :: string

record Container =
  c_Name :: string
  c_Image :: string
  c_Args :: "string slice"
  c_Env :: "EnvVar slice"
  c_Resources :: ResourceRequirements
  c_VolumeMounts :: "VolumeMount slice"
  c_LivenessProbe :: "Probe option"
  c_ReadinessProbe :: "Probe option"
  c_Other :: string

record Deployment =
  Annotations :: "(string, string) fmap"
  TemplateLabels :: "(string, string) fmap"
  TemplateAnnotations :: "(string, string) fmap"
  Containers :: "Container slice"
  InitContainers :: "Container slice"
  Volumes :: "Volume slice"

text \<open>
  \<^verbatim>\<open>common.KubernetesObject\<close> is an interface; an object is a Deployment or an object
  of another type, of which only the type name (what \<^verbatim>\<open>%T\<close> prints) is kept.
\<close>

datatype KubernetesObject = is_Deployment: DeploymentObj Deployment | OtherObj string

datatype error =
    ErrNotDeployment string
  | ErrContainersLength nat
  | ErrOther string

type_synonym mutate_result = "Deployment \<times> bool \<times> error option"

type_synonym DMutateFn = "Deployment \<Rightarrow> Deployment \<Rightarrow> mutate_result option"

subsection \<open>DeploymentMutator\<close>

text \<open>
  The loop \<^verbatim>\<open>for _, opt := range opts\<close> of the closure, with \<^verbatim>\<open>update\<close> as
  accumulator. A mutator that returns an error ends it with \<^verbatim>\<open>return false, err\<close>.
\<close>

fun run_opts :: "DMutateFn list \<Rightarrow> Deployment \<Rightarrow> Deployment \<Rightarrow> bool \<Rightarrow> mutate_result option" where
  "run_opts [] desired existing update = Some (existing, update, None)"
| "run_opts (opt # opts) desired existing update =
     (case opt desired existing of
        None \<Rightarrow> None
      | Some (existing', tmpUpdate, Some err) \<Rightarrow> Some (existing', False, Some err)
      | Some (existing', tmpUpdate, None) \<Rightarrow> run_opts opts desired existing' (update \<or> tmpUpdate))"

definition DeploymentMutator ::
  "DMutateFn list \<Rightarrow> KubernetesObject \<Rightarrow> KubernetesObject \<Rightarrow> (KubernetesObject \<times> bool \<times> error option) option" where
  "DeploymentMutator opts existingObj desiredObj =
     (case existingObj of
        OtherObj t \<Rightarrow> Some (existingObj, False, Some (ErrNotDeployment t))
      | DeploymentObj existing \<Rightarrow>
          (case desiredObj of
             OtherObj t \<Rightarrow> Some (existingObj, False, Some (ErrNotDeployment t))
           | DeploymentObj desired \<Rightarrow>
               (case run_opts opts desired existing False of
                  None \<Rightarrow> None
                | Some (existing', update, err) \<Rightarrow> Some (DeploymentObj existing', update, err))))"

text \<open>
  The reading of the specification, to compare the pipeline with: every mutator of the
  list is run in list order, each on the existing Deployment as its predecessors left
  it, and the changed flags are collected. The result is \<open>None\<close> when one of them
  returns an error or panics.
\<close>

fun run_each :: "DMutateFn list \<Rightarrow> Deployment \<Rightarrow> Deployment \<Rightarrow> (Deployment \<times> bool list) option" where
  "run_each [] desired existing = Some (existing, [])"
| "run_each (opt # opts) desired existing =
     (case opt desired existing of
        Some (existing', changed, None) \<Rightarrow>
          (case run_each opts desired existing' of
             Some (existing'', flags) \<Rightarrow> Some (existing'', changed # flags)
           | None \<Rightarrow> None)
      | _ \<Rightarrow> None)"

subsection \<open>DeploymentPodInitContainerMutator\<close>

text \<open>
  The loop \<^verbatim>\<open>for i := range desired.Spec.Template.Spec.InitContainers\<close>: the first
  argument is what is left of the desired elements, \<open>i\<close> the index of its head,
  \<open>existing\<close> the slice of existing as it is now. The comparison is
  \<^verbatim>\<open>reflect.DeepEqual\<close> of the two containers.
\<close>

fun init_containers_loop :: "Container list \<Rightarrow> nat \<Rightarrow> Container slice \<Rightarrow> bool \<Rightarrow> Container slice \<times> bool" where
  "init_containers_loop [] i existing updated = (existing, updated)"
| "init_containers_loop (d # ds) i existing updated =
     (if i \<ge> len existing then init_containers_loop ds (Suc i) (append1 existing d) True
      else if elems existing ! i \<noteq> d
      then init_containers_loop ds (Suc i) (with_elems existing ((elems existing)[i := d])) True
      else init_containers_loop ds (Suc i) existing updated)"

text \<open>
  The truncation \<^verbatim>\<open>InitContainers[:len(desired...InitContainers)]\<close> is taken of a slice
  that has more elements than desired, so of one that is not \<^verbatim>\<open>nil\<close>, and is not
  \<^verbatim>\<open>nil\<close> itself.
\<close>

definition DeploymentPodInitContainerMutator :: DMutateFn where
  "DeploymentPodInitContainerMutator desired existing =
     (let (ics, updated) =
            (if len (InitContainers existing) > len (InitContainers desired)
             then (Some (take (len (InitContainers desired)) (elems (InitContainers existing))), True)
             else (InitContainers existing, False));
          (ics', updated') = init_containers_loop (elems (InitContainers desired)) 0 ics updated
      in Some (existing\<lparr>InitContainers := ics'\<rparr>, updated', None))"

subsection \<open>The listener-mode environment mutators\<close>

text \<open>
  \<^verbatim>\<open>removeEnvVar\<close>: the result starts as the \<^verbatim>\<open>nil\<close> slice of
  \<^verbatim>\<open>var newEnvVars []corev1.EnvVar\<close>, and the loop appends, in order, the entries with
  another name.
\<close>

fun removeEnvVar_loop :: "EnvVar list \<Rightarrow> string \<Rightarrow> EnvVar slice \<Rightarrow> EnvVar slice" where
  "removeEnvVar_loop [] name newEnvVars = newEnvVars"
| "removeEnvVar_loop (envVar # envVars) name newEnvVars =
     (if ev_Name envVar \<noteq> name then removeEnvVar_loop envVars name (append1 newEnvVars envVar)
      else removeEnvVar_loop envVars name newEnvVars)"

definition removeEnvVar :: "EnvVar slice \<Rightarrow> string \<Rightarrow> EnvVar slice" where
  "removeEnvVar envVars name = removeEnvVar_loop (elems envVars) name None"

text \<open>
  Modelled from the spec: \<^verbatim>\<open>helper.EnvVarFromValue\<close> is in package helper, which is
  not among the sources; it builds the environment variable of a name and a literal
  value (the "pair of cooperating environment variables" is pinned to such values).
\<close>

definition EnvVarFromValue :: "string \<Rightarrow> string \<Rightarrow> EnvVar" where
  "EnvVarFromValue name val = \<lparr>ev_Name = name, ev_Value = val, ev_ValueFrom = None\<rparr>"

text \<open>
  Writing the environment of \<^verbatim>\<open>Containers[0]\<close> back, and the assignment
  \<^verbatim>\<open>Env[envId].Value = v\<close>.
\<close>

definition set_Env0 :: "Deployment \<Rightarrow> EnvVar slice \<Rightarrow> Deployment" where
  "set_Env0 existing env =
     existing\<lparr>Containers := with_elems (Containers existing)
       ((elems (Containers existing))[0 := (elems (Containers existing) ! 0)\<lparr>c_Env := env\<rparr>])\<rparr>"

definition set_Value :: "EnvVar slice \<Rightarrow> nat \<Rightarrow> string \<Rightarrow> EnvVar slice" where
  "set_Value env envId val =
     with_elems env ((elems env)[envId := (elems env ! envId)\<lparr>ev_Value := val\<rparr>])"

text \<open>
  The loop \<^verbatim>\<open>for envId, envVar := range existing...Containers[0].Env\<close> of
  \<^verbatim>\<open>DeploymentListenerEnvMutator\<close>. The first argument is what is left of the elements
  the range statement evaluated, \<open>envId\<close> the index of its head, \<open>env\<close> the
  environment as it is now. The result is the environment, \<^verbatim>\<open>update\<close>,
  \<^verbatim>\<open>updateListenerWorkers\<close> and \<^verbatim>\<open>updateConfigRedisAsync\<close>; \<^verbatim>\<open>update\<close> is true
  exactly when the loop was left by \<^verbatim>\<open>return update, nil\<close>. An assignment to
  \<^verbatim>\<open>Env[envId]\<close> is reached only while the slice has its first length, so \<open>envId\<close>
  is in range there.
\<close>

fun listener_env_loop ::
  "EnvVar list \<Rightarrow> nat \<Rightarrow> EnvVar slice \<Rightarrow> bool \<Rightarrow> bool \<Rightarrow> EnvVar slice \<times> bool \<times> bool \<times> bool" where
  "listener_env_loop [] envId env updateListenerWorkers updateConfigRedisAsync =
     (env, False, updateListenerWorkers, updateConfigRedisAsync)"
| "listener_env_loop (envVar # rest) envId env updateListenerWorkers updateConfigRedisAsync =
     (let (updateListenerWorkers1, env1, update1) =
            (if ev_Name envVar = ''LISTENER_WORKERS''
             then (if ev_Value envVar = ''0''
                   then (False, set_Value env envId ''1'', True)
                   else (False, env, False))
             else (updateListenerWorkers, env, False));
          (updateConfigRedisAsync2, env2, update2) =
            (if ev_Name envVar = ''CONFIG_REDIS_ASYNC''
             then (if ev_Value envVar = ''0''
                   then (False, set_Value env1 envId ''1'', True)
                   else (False, env1, update1))
             else (updateConfigRedisAsync, env1, update1))
      in if update2 then (env2, True, updateListenerWorkers1, updateConfigRedisAsync2)
         else listener_env_loop rest (Suc envId) env2 updateListenerWorkers1 updateConfigRedisAsync2)"

definition DeploymentListenerEnvMutator :: DMutateFn where
  "DeploymentListenerEnvMutator desired existing =
     do {
       c0 \<leftarrow> at (elems (Containers existing)) 0;
       let (env, update, updateListenerWorkers, updateConfigRedisAsync) =
             listener_env_loop (elems (c_Env c0)) 0 (c_Env c0) True True;
       if update then Some (set_Env0 existing env, True, None)
       else
         let env1 = (if updateConfigRedisAsync
                     then append1 env (EnvVarFromValue ''CONFIG_REDIS_ASYNC'' ''1'') else env);
             env2 = (if updateListenerWorkers
                     then append1 env1 (EnvVarFromValue ''LISTENER_WORKERS'' ''1'') else env1)
         in Some (set_Env0 existing env2, updateListenerWorkers \<or> updateConfigRedisAsync, None)
     }"

text \<open>The same loop of \<^verbatim>\<open>DeploymentListenerAsyncDisableEnvMutator\<close>.\<close>

fun listener_async_disable_env_loop ::
  "EnvVar list \<Rightarrow> nat \<Rightarrow> EnvVar slice \<Rightarrow> bool \<Rightarrow> bool \<Rightarrow> EnvVar slice \<times> bool \<times> bool \<times> bool" where
  "listener_async_disable_env_loop [] envId env updateListenerWorkers updateConfigRedisAsync =
     (env, False, updateListenerWorkers, updateConfigRedisAsync)"
| "listener_async_disable_env_loop (envVar # rest) envId env updateListenerWorkers updateConfigRedisAsync =
     (let (updateListenerWorkers1, env1, update1) =
            (if ev_Name envVar = ''LISTENER_WORKERS''
             then (if ev_Value envVar = ''1''
                   then (False, removeEnvVar env ''LISTENER_WORKERS'', True)
                   else (False, env, False))
             else (updateListenerWorkers, env, False));
          (updateConfigRedisAsync2, env2, update2) =
            (if ev_Name envVar = ''CONFIG_REDIS_ASYNC''
             then (if ev_Value envVar = ''1''
                   then (False, set_Value env1 envId ''0'', True)
                   else (False, env1, update1))
             else (updateConfigRedisAsync, env1, update1))
      in if update2 then (env2, True, updateListenerWorkers1, updateConfigRedisAsync2)
         else listener_async_disable_env_loop rest (Suc envId) env2
                updateListenerWorkers1 updateConfigRedisAsync2)"

definition DeploymentListenerAsyncDisableEnvMutator :: DMutateFn where
  "DeploymentListenerAsyncDisableEnvMutator desired existing =
     do {
       c0 \<leftarrow> at (elems (Containers existing)) 0;
       let (env, update, updateListenerWorkers, updateConfigRedisAsync) =
             listener_async_disable_env_loop (elems (c_Env c0)) 0 (c_Env c0) True True;
       if update then Some (set_Env0 existing env, True, None)
       else
         let env1 = (if updateConfigRedisAsync
                     then append1 env (EnvVarFromValue ''CONFIG_REDIS_ASYNC'' ''0'') else env);
             env2 = (if updateListenerWorkers
                     then removeEnvVar env1 ''LISTENER_WORKERS'' else env1)
         in Some (set_Env0 existing env2, updateListenerWorkers \<or> updateConfigRedisAsync, None)
     }"

subsection \<open>DeploymentEnvVarReconciler\<close>

text \<open>
  \<^verbatim>\<open>helper.EnvVarReconciler(desired, &existing, envVar)\<close> is in package helper, which
  is not among the sources: it is the parameter \<open>reconcile\<close>, which returns the
  environment it leaves and its changed flag. The loops
  \<^verbatim>\<open>for idx := range existing...InitContainers\<close> and
  \<^verbatim>\<open>for idx := range existing...Containers\<close> are \<open>env_var_loop\<close>, on the elements of
  the two slices: the first list is what is left of the range, \<open>idx\<close> the index of
  its head. The loops assign to elements only, so the slices of existing are \<^verbatim>\<open>nil\<close> or
  not as before.
\<close>

type_synonym env_reconciler = "EnvVar slice \<Rightarrow> EnvVar slice \<Rightarrow> string \<Rightarrow> EnvVar slice \<times> bool"

fun env_var_loop ::
  "env_reconciler \<Rightarrow> string \<Rightarrow> Container list \<Rightarrow> nat \<Rightarrow> Container list \<Rightarrow> Container list \<Rightarrow> bool
   \<Rightarrow> (Container list \<times> bool) option" where
  "env_var_loop reconcile envVar [] idx desired existing updated = Some (existing, updated)"
| "env_var_loop reconcile envVar (x # rest) idx desired existing updated =
     do {
       d \<leftarrow> at desired idx;
       e \<leftarrow> at existing idx;
       let (env, tmpChanged) = reconcile (c_Env d) (c_Env e) envVar;
       env_var_loop reconcile envVar rest (Suc idx) desired
         (existing[idx := e\<lparr>c_Env := env\<rparr>]) (updated \<or> tmpChanged)
     }"

definition DeploymentEnvVarReconciler ::
  "env_reconciler \<Rightarrow> Deployment \<Rightarrow> Deployment \<Rightarrow> string \<Rightarrow> (Deployment \<times> bool) option" where
  "DeploymentEnvVarReconciler reconcile desired existing envVar =
     (if len (Containers desired) \<noteq> len (Containers existing) then Some (existing, False)
      else if len (InitContainers desired) \<noteq> len (InitContainers existing)
      then Some (existing, False)
      else do {
        (ics, updated1) \<leftarrow> env_var_loop reconcile envVar (elems (InitContainers existing)) 0
                             (elems (InitContainers desired)) (elems (InitContainers existing)) False;
        (cs, updated2) \<leftarrow> env_var_loop reconcile envVar (elems (Containers existing)) 0
                            (elems (Containers desired)) (elems (Containers existing)) updated1;
        Some (existing\<lparr>InitContainers := with_elems (InitContainers existing) ics,
                Containers := with_elems (Containers existing) cs\<rparr>, updated2)
      })"

subsection \<open>DeploymentContainerResourcesMutator\<close>

text \<open>
  \<^verbatim>\<open>helper.CmpResources\<close> is in package helper, which is not among the sources: it is
  the parameter \<open>CmpResources\<close>, true when it finds the two resource requirements
  equal. After \<^verbatim>\<open>existing...Containers = desired...Containers\<close> the two slices are
  the same array, so the comparison that follows reads the same resource requirements
  on both sides and the assignment under it, if reached, changes nothing; in the model
  the slice is copied, with the same result. Both slices have length 1 when
  \<^verbatim>\<open>Containers[0]\<close> is read.
\<close>

definition DeploymentContainerResourcesMutator ::
  "(ResourceRequirements \<Rightarrow> ResourceRequirements \<Rightarrow> bool) \<Rightarrow> DMutateFn" where
  "DeploymentContainerResourcesMutator CmpResources desired existing =
     (if len (Containers desired) \<noteq> 1
      then Some (existing, False, Some (ErrContainersLength (len (Containers desired))))
      else
        let (existing1, update1) =
              (if len (Containers existing) \<noteq> 1
               then (existing\<lparr>Containers := Containers desired\<rparr>, True)
               else (existing, False))
        in do {
          e0 \<leftarrow> at (elems (Containers existing1)) 0;
          d0 \<leftarrow> at (elems (Containers desired)) 0;
          if \<not> CmpResources (c_Resources e0) (c_Resources d0)
          then Some (existing1\<lparr>Containers := with_elems (Containers existing1)
                       ((elems (Containers existing1))[0 := e0\<lparr>c_Resources := c_Resources d0\<rparr>])\<rparr>,
                     True, None)
          else Some (existing1, update1, None)
        })"

subsection \<open>DeploymentSyncVolumesAndMountsMutator\<close>

fun volumeExists :: "Volume list \<Rightarrow> string \<Rightarrow> bool" where
  "volumeExists [] name = False"
| "volumeExists (v # volumes) name = (if v_Name v = name then True else volumeExists volumes name)"

fun volumeMountExists :: "VolumeMount list \<Rightarrow> string \<Rightarrow> bool" where
  "volumeMountExists [] name = False"
| "volumeMountExists (vm # volumeMounts) name =
     (if vm_Name vm = name then True else volumeMountExists volumeMounts name)"

text \<open>
  The loop of \<^verbatim>\<open>syncVolumeMounts\<close> over the desired mounts; the test is against
  \<^verbatim>\<open>existingMounts\<close>, which the loop does not change.
\<close>

fun sync_mounts_loop ::
  "VolumeMount slice \<Rightarrow> VolumeMount list \<Rightarrow> VolumeMount slice \<Rightarrow> bool \<Rightarrow> bool \<times> VolumeMount slice" where
  "sync_mounts_loop existingMounts [] newVolumeMounts changed = (changed, newVolumeMounts)"
| "sync_mounts_loop existingMounts (desiredMount # rest) newVolumeMounts changed =
     (if \<not> volumeMountExists (elems existingMounts) (vm_Name desiredMount)
      then sync_mounts_loop existingMounts rest (append1 newVolumeMounts desiredMount) True
      else sync_mounts_loop existingMounts rest newVolumeMounts changed)"

definition syncVolumeMounts :: "VolumeMount slice \<Rightarrow> VolumeMount slice \<Rightarrow> bool \<times> VolumeMount slice" where
  "syncVolumeMounts existingMounts desiredMounts =
     sync_mounts_loop existingMounts (elems desiredMounts) existingMounts False"

text \<open>
  The loop \<^verbatim>\<open>for _, desiredVolume := range desired...Volumes\<close>; the test is against
  the volumes of existing as they are now.
\<close>

fun add_missing_volumes :: "Volume list \<Rightarrow> Volume slice \<Rightarrow> bool \<Rightarrow> Volume slice \<times> bool" where
  "add_missing_volumes [] volumes changed = (volumes, changed)"
| "add_missing_volumes (desiredVolume # rest) volumes changed =
     (if \<not> volumeExists (elems volumes) (v_Name desiredVolume)
      then add_missing_volumes rest (append1 volumes desiredVolume) True
      else add_missing_volumes rest volumes changed)"

text \<open>
  The loops \<^verbatim>\<open>for cIdx := range existing...Containers\<close> and
  \<^verbatim>\<open>for cIdx := range existing...InitContainers\<close>, on the elements of the slices: the
  first list is what is left of the range, \<open>cIdx\<close> the index of its head;
  \<^verbatim>\<open>desired...Containers[cIdx]\<close> is read without a test of the length. The loops assign
  to elements only.
\<close>

fun sync_containers_loop ::
  "Container list \<Rightarrow> nat \<Rightarrow> Container list \<Rightarrow> Container list \<Rightarrow> bool \<Rightarrow> (Container list \<times> bool) option" where
  "sync_containers_loop [] cIdx desired existing changed = Some (existing, changed)"
| "sync_containers_loop (x # rest) cIdx desired existing changed =
     do {
       e \<leftarrow> at existing cIdx;
       d \<leftarrow> at desired cIdx;
       let (updated, newVolumeMounts) = syncVolumeMounts (c_VolumeMounts e) (c_VolumeMounts d);
       if updated
       then sync_containers_loop rest (Suc cIdx) desired
              (existing[cIdx := e\<lparr>c_VolumeMounts := newVolumeMounts\<rparr>]) True
       else sync_containers_loop rest (Suc cIdx) desired existing changed
     }"

text \<open>
  The mutator first replaces a \<^verbatim>\<open>nil\<close> slice of volumes by an empty one, without
  setting \<^verbatim>\<open>changed\<close>.
\<close>

definition DeploymentSyncVolumesAndMountsMutator :: DMutateFn where
  "DeploymentSyncVolumesAndMountsMutator desired existing =
     (let volumes0 = (if Volumes existing = None then Some [] else Volumes existing);
          (volumes, changed1) = add_missing_volumes (elems (Volumes desired)) volumes0 False
      in do {
        (cs, changed2) \<leftarrow> sync_containers_loop (elems (Containers existing)) 0
                            (elems (Containers desired)) (elems (Containers existing)) changed1;
        (ics, changed3) \<leftarrow> sync_containers_loop (elems (InitContainers existing)) 0
                             (elems (InitContainers desired)) (elems (InitContainers existing)) changed2;
        Some (existing\<lparr>Volumes := volumes, Containers := with_elems (Containers existing) cs,
                InitContainers := with_elems (InitContainers existing) ics\<rparr>, changed3, None)
      })"

subsection \<open>DeploymentRemoveTLSVolumesAndMountsMutator\<close>

definition volumeNamesToRemove :: "string list" where
  "volumeNamesToRemove = [''writable-tls'', ''tls-secret'']"

text \<open>
  The inner loop \<^verbatim>\<open>for idx, volume := range existing...Volumes\<close> for one name: at the
  first volume of that name the slice becomes
  \<^verbatim>\<open>append(Volumes[:idx], Volumes[idx+1:]...)\<close>, which is not \<^verbatim>\<open>nil\<close>, and the loop is
  left by \<^verbatim>\<open>break\<close>. The result is the slice and whether a volume was removed.
\<close>

fun remove_volume_loop :: "Volume list \<Rightarrow> nat \<Rightarrow> string \<Rightarrow> Volume slice \<Rightarrow> Volume slice \<times> bool" where
  "remove_volume_loop [] idx volumeName volumes = (volumes, False)"
| "remove_volume_loop (volume # rest) idx volumeName volumes =
     (if v_Name volume = volumeName
      then (Some (take idx (elems volumes) @ drop (Suc idx) (elems volumes)), True)
      else remove_volume_loop rest (Suc idx) volumeName volumes)"

text \<open>The outer loop \<^verbatim>\<open>for _, volumeName := range volumeNamesToRemove\<close>.\<close>

fun remove_volumes :: "string list \<Rightarrow> Volume slice \<Rightarrow> bool \<Rightarrow> Volume slice \<times> bool" where
  "remove_volumes [] volumes volumeModified = (volumes, volumeModified)"
| "remove_volumes (volumeName # names) volumes volumeModified =
     (let (volumes', removed) = remove_volume_loop (elems volumes) 0 volumeName volumes
      in remove_volumes names volumes' (volumeModified \<or> removed))"

text \<open>The same two loops over the volume mounts of one container.\<close>

fun remove_mount_loop :: "VolumeMount list \<Rightarrow> nat \<Rightarrow> string \<Rightarrow> VolumeMount slice \<Rightarrow> VolumeMount slice" where
  "remove_mount_loop [] vIdx volumeName mounts = mounts"
| "remove_mount_loop (volumeMount # rest) vIdx volumeName mounts =
     (if vm_Name volumeMount = volumeName
      then Some (take vIdx (elems mounts) @ drop (Suc vIdx) (elems mounts))
      else remove_mount_loop rest (Suc vIdx) volumeName mounts)"

fun remove_mounts :: "string list \<Rightarrow> VolumeMount slice \<Rightarrow> VolumeMount slice" where
  "remove_mounts [] mounts = mounts"
| "remove_mounts (volumeName # names) mounts =
     remove_mounts names (remove_mount_loop (elems mounts) 0 volumeName mounts)"

text \<open>
  \<^verbatim>\<open>for cIdx, container := range ...\<close> copies each container, removes the mounts from
  the copy and writes it back at \<^verbatim>\<open>cIdx\<close>: a \<open>map\<close> over the elements of the slice,
  which is \<^verbatim>\<open>nil\<close> or not as before.
\<close>

definition remove_container_mounts :: "Container \<Rightarrow> Container" where
  "remove_container_mounts container =
     container\<lparr>c_VolumeMounts := remove_mounts volumeNamesToRemove (c_VolumeMounts container)\<rparr>"

definition DeploymentRemoveTLSVolumesAndMountsMutator :: DMutateFn where
  "DeploymentRemoveTLSVolumesAndMountsMutator desired existing =
     (if Volumes existing = None then Some (existing, False, None)
      else
        let (volumes, volumeModified) = remove_volumes volumeNamesToRemove (Volumes existing) False
        in if volumeModified
           then Some (existing\<lparr>Volumes := volumes,
                        Containers := map_option (map remove_container_mounts) (Containers existing),
                        InitContainers :=
                          map_option (map remove_container_mounts) (InitContainers existing)\<rparr>,
                      True, None)
           else Some (existing\<lparr>Volumes := volumes\<rparr>, False, None))"

subsection \<open>The map-merge mutators\<close>

text \<open>
  Modelled from the spec: \<^verbatim>\<open>helper.MergeMapStringString\<close> is in package helper, which
  is not among the sources. The specification: for every key in desired, set it in
  existing (overwrite); keys present only in existing are preserved; the result is the
  union with desired taking precedence on conflicts; changed is true iff the merged map
  differs from the original. The flag is passed by pointer and the callers pass it as
  false; the model sets it when the maps differ and leaves it otherwise.
\<close>

definition MergeMapStringString ::
  "bool \<Rightarrow> (string, string) fmap \<Rightarrow> (string, string) fmap \<Rightarrow> bool \<times> (string, string) fmap" where
  "MergeMapStringString modified existing desired =
     (let merged = existing ++\<^sub>f desired in (modified \<or> merged \<noteq> existing, merged))"

definition DeploymentAnnotationsMutator :: DMutateFn where
  "DeploymentAnnotationsMutator desired existing =
     (let (updated, m) = MergeMapStringString False (Annotations existing) (Annotations desired)
      in Some (existing\<lparr>Annotations := m\<rparr>, updated, None))"

definition DeploymentPodTemplateLabelsMutator :: DMutateFn where
  "DeploymentPodTemplateLabelsMutator desired existing =
     (let (updated, m) = MergeMapStringString False (TemplateLabels existing) (TemplateLabels desired)
      in Some (existing\<lparr>TemplateLabels := m\<rparr>, updated, None))"

definition DeploymentPodTemplateAnnotationsMutator :: DMutateFn where
  "DeploymentPodTemplateAnnotationsMutator desired existing =
     (let (updated, m) =
            MergeMapStringString False (TemplateAnnotations existing) (TemplateAnnotations desired)
      in Some (existing\<lparr>TemplateAnnotations := m\<rparr>, updated, None))"

subsection \<open>Mutators that index the containers of existing\<close>

text \<open>
  The loop \<^verbatim>\<open>for i, desiredContainer := range desired...Containers\<close> of
  \<^verbatim>\<open>DeploymentArgsMutator\<close>, on the elements of the slices;
  \<^verbatim>\<open>&existing...Containers[i]\<close> is taken without a test of the length. The comparison
  is \<^verbatim>\<open>reflect.DeepEqual\<close> of the two slices of arguments, which tells an empty slice
  from \<^verbatim>\<open>nil\<close>.
\<close>

fun args_loop :: "Container list \<Rightarrow> nat \<Rightarrow> Container list \<Rightarrow> bool \<Rightarrow> (Container list \<times> bool) option" where
  "args_loop [] i existing updated = Some (existing, updated)"
| "args_loop (desiredContainer # rest) i existing updated =
     do {
       existingContainer \<leftarrow> at existing i;
       if c_Args existingContainer \<noteq> c_Args desiredContainer
       then args_loop rest (Suc i)
              (existing[i := existingContainer\<lparr>c_Args := c_Args desiredContainer\<rparr>]) True
       else args_loop rest (Suc i) existing updated
     }"

definition DeploymentArgsMutator :: DMutateFn where
  "DeploymentArgsMutator desired existing =
     do {
       (cs, updated) \<leftarrow> args_loop (elems (Containers desired)) 0 (elems (Containers existing)) False;
       Some (existing\<lparr>Containers := with_elems (Containers existing) cs\<rparr>, updated, None)
     }"

text \<open>The same loop of \<^verbatim>\<open>DeploymentProbesMutator\<close>, with its two comparisons.\<close>

fun probes_loop :: "Container list \<Rightarrow> nat \<Rightarrow> Container list \<Rightarrow> bool \<Rightarrow> (Container list \<times> bool) option" where
  "probes_loop [] i existing updated = Some (existing, updated)"
| "probes_loop (desiredContainer # rest) i existing updated =
     do {
       existingContainer \<leftarrow> at existing i;
       let (c1, updated1) =
             (if c_LivenessProbe existingContainer \<noteq> c_LivenessProbe desiredContainer
              then (existingContainer\<lparr>c_LivenessProbe := c_LivenessProbe desiredContainer\<rparr>, True)
              else (existingContainer, updated));
       let (c2, updated2) =
             (if c_ReadinessProbe c1 \<noteq> c_ReadinessProbe desiredContainer
              then (c1\<lparr>c_ReadinessProbe := c_ReadinessProbe desiredContainer\<rparr>, True)
              else (c1, updated1));
       probes_loop rest (Suc i) (existing[i := c2]) updated2
     }"

definition DeploymentProbesMutator :: DMutateFn where
  "DeploymentProbesMutator desired existing =
     do {
       (cs, updated) \<leftarrow> probes_loop (elems (Containers desired)) 0 (elems (Containers existing)) False;
       Some (existing\<lparr>Containers := with_elems (Containers existing) cs\<rparr>, updated, None)
     }"

text \<open>\<^verbatim>\<open>falconArgs\<close> is a slice literal, so not \<^verbatim>\<open>nil\<close>.\<close>

definition falconArgs :: "string slice" where
  "falconArgs = Some [''bin/3scale_backend'', ''-s'', ''falcon'', ''start'', ''-e'', ''production'',
                      ''-p'', ''3000'', ''-x'', ''/dev/stdout'']"

definition DeploymentListenerArgsMutator :: DMutateFn where
  "DeploymentListenerArgsMutator desired existing =
     do {
       c0 \<leftarrow> at (elems (Containers existing)) 0;
       if c_Args c0 \<noteq> falconArgs
       then Some (existing\<lparr>Containers := with_elems (Containers existing)
                    ((elems (Containers existing))[0 := c0\<lparr>c_Args := falconArgs\<rparr>])\<rparr>,
                  True, None)
       else Some (existing, False, None)
     }"

subsection \<open>Predicates used in the statements and proofs\<close>

text \<open>
  What the loop over the containers of existing has established when it has got to
  index \<open>cIdx\<close>: the number of containers is kept, every container keeps its mounts
  as the first mounts of the result, and from \<open>cIdx\<close> on the mount names of the
  desired container at the same index are among those of the result.
\<close>

definition mounts_added :: "Container list \<Rightarrow> Container list \<Rightarrow> Container list \<Rightarrow> nat \<Rightarrow> bool" where
  "mounts_added desired existing cs cIdx =
     (length cs = length existing
      \<and> (\<forall>j < length existing.
            prefix (elems (c_VolumeMounts (existing ! j))) (elems (c_VolumeMounts (cs ! j)))
            \<and> (cIdx \<le> j \<longrightarrow> j < length desired
                 \<and> vm_Name ` set (elems (c_VolumeMounts (desired ! j)))
                     \<subseteq> vm_Name ` set (elems (c_VolumeMounts (cs ! j))))))"

text \<open>
  The reading of the specification for the removal mutator, to compare the code with:
  a container without any volume mount of a name slated for removal. \<open>once\<close> says
  that each of those names is borne by at most one element of a list of names.
\<close>

definition drop_tls_mounts :: "Container \<Rightarrow> Container" where
  "drop_tls_mounts container =
     container\<lparr>c_VolumeMounts :=
       map_option (filter (\<lambda>m. vm_Name m \<notin> set volumeNamesToRemove)) (c_VolumeMounts container)\<rparr>"

definition once :: "string list \<Rightarrow> bool" where
  "once names = list_all (\<lambda>n. length (filter (\<lambda>x. x = n) names) \<le> 1) volumeNamesToRemove"

subsection \<open>Example objects\<close>

definition example_container :: Container where
  "example_container =
     \<lparr>c_Name = ''backend-listener'', c_Image = ''backend:latest'', c_Args = None, c_Env = None,
      c_Resources = \<lparr>r_Limits = None, r_Requests = None, r_Other = []\<rparr>, c_VolumeMounts = None,
      c_LivenessProbe = None, c_ReadinessProbe = None, c_Other = []\<rparr>"

definition example_deployment :: Deployment where
  "example_deployment =
     \<lparr>Annotations = fmempty, TemplateLabels = fmempty, TemplateAnnotations = fmempty,
      Containers = Some [example_container], InitContainers = None, Volumes = None\<rparr>"

definition with_env :: "EnvVar list \<Rightarrow> Deployment" where
  "with_env env = example_deployment\<lparr>Containers := Some [example_container\<lparr>c_Env := Some env\<rparr>]\<rparr>"

definition with_volumes :: "Volume list \<Rightarrow> VolumeMount list \<Rightarrow> Deployment" where
  "with_volumes volumes mounts =
     example_deployment\<lparr>Volumes := Some volumes,
       Containers := Some [example_container\<lparr>c_VolumeMounts := Some mounts\<rparr>]\<rparr>"

definition volume :: "string \<Rightarrow> Volume" where
  "volume name = \<lparr>v_Name = name, v_Source = ''secret''\<rparr>"

definition mount :: "string \<Rightarrow> string \<Rightarrow> VolumeMount" where
  "mount name path = \<lparr>vm_Name = name, vm_MountPath = path, vm_Other = []\<rparr>"

definition two_cpus :: ResourceRequirements where
  "two_cpus = \<lparr>r_Limits = Some (fmupd ''cpu'' ''2'' fmempty), r_Requests = None, r_Other = []\<rparr>"

definition desired_map :: "(string, string) fmap" where
  "desired_map = fmupd ''app'' ''backend'' (fmupd ''tier'' ''listener'' fmempty)"

definition existing_map :: "(string, string) fmap" where
  "existing_map = fmupd ''app'' ''old'' (fmupd ''owner'' ''ops'' fmempty)"

definition with_maps :: "(string, string) fmap \<Rightarrow> Deployment" where
  "with_maps m = example_deployment\<lparr>Annotations := m, TemplateLabels := m, TemplateAnnotations := m\<rparr>"

section \<open>Properties\<close>

subsection \<open>Slices\<close>

lemma elems_simps [simp]: "elems None = []" "elems (Some xs) = xs"
  by (simp_all add: elems_def)

lemma len_simps [simp]: "len None = 0" "len (Some xs) = length xs"
  by (simp_all add: len_def)

lemma with_elems_simps [simp]: "with_elems None xs = None" "with_elems (Some ys) xs = Some xs"
  by (simp_all add: with_elems_def)

lemma elems_with_elems: "length xs = len s \<Longrightarrow> elems (with_elems s xs) = xs"
  by (cases s) simp_all

lemma elems_append1 [simp]: "elems (append1 s x) = elems s @ [x]"
  by (simp add: append1_def)

subsection \<open>The pipeline\<close>

lemma run_opts_run_each:
  "run_each opts desired existing = Some (existing', flags) \<Longrightarrow>
   run_opts opts desired existing update = Some (existing', update \<or> True \<in> set flags, None)"
proof (induction opts arbitrary: existing update flags)
  case Nil
  then show ?case by simp
next
  case (Cons opt opts)
  from Cons.prems obtain e1 c1 fs where
    step: "opt desired existing = Some (e1, c1, None)" and
    rest: "run_each opts desired e1 = Some (existing', fs)" and
    flags: "flags = c1 # fs"
    by (auto split: option.splits prod.splits)
  from Cons.IH [OF rest, of "update \<or> c1"] step flags show ?case
    by auto
qed

lemma run_opts_stops:
  "run_each pre desired existing = Some (e1, flags) \<Longrightarrow>
   opt desired e1 = Some (e2, c, Some err) \<Longrightarrow>
   run_opts (pre @ opt # post) desired existing update = Some (e2, False, Some err)"
proof (induction pre arbitrary: existing update flags)
  case Nil
  then show ?case by simp
next
  case (Cons p pre)
  from Cons.prems(1) obtain e0 c0 fs where
    step: "p desired existing = Some (e0, c0, None)" and
    rest: "run_each pre desired e0 = Some (e1, fs)"
    by (auto split: option.splits prod.splits)
  from Cons.IH [OF rest Cons.prems(2)] step show ?case
    by simp
qed

text \<open>
  C1. The pipeline over Deployments. When every mutator of the list, run in list order
  on the existing Deployment as its predecessors left it, returns without an error, the
  pipeline returns the last Deployment, no error, and a changed flag that is the
  disjunction of the individual flags. When the mutators of \<open>pre\<close> succeed and the next
  one returns an error, the pipeline returns that error with what that mutator left,
  whatever follows in the list: no later mutator is run.
\<close>

theorem DeploymentMutator_pipeline:
  "(run_each opts desired existing = Some (existing', flags) \<longrightarrow>
      DeploymentMutator opts (DeploymentObj existing) (DeploymentObj desired)
        = Some (DeploymentObj existing', True \<in> set flags, None))
   \<and> (run_each pre desired existing = Some (e1, flags1) \<and> opt desired e1 = Some (e2, c, Some err) \<longrightarrow>
      DeploymentMutator (pre @ opt # post) (DeploymentObj existing) (DeploymentObj desired)
        = Some (DeploymentObj e2, False, Some err))"
proof (intro conjI impI)
  assume "run_each opts desired existing = Some (existing', flags)"
  from run_opts_run_each [OF this, of False]
  show "DeploymentMutator opts (DeploymentObj existing) (DeploymentObj desired)
        = Some (DeploymentObj existing', True \<in> set flags, None)"
    by (simp add: DeploymentMutator_def)
next
  assume "run_each pre desired existing = Some (e1, flags1) \<and> opt desired e1 = Some (e2, c, Some err)"
  then have "run_opts (pre @ opt # post) desired existing False = Some (e2, False, Some err)"
    by (blast intro: run_opts_stops)
  then show "DeploymentMutator (pre @ opt # post) (DeploymentObj existing) (DeploymentObj desired)
        = Some (DeploymentObj e2, False, Some err)"
    by (simp add: DeploymentMutator_def)
qed

lemmas example_defs = example_container_def example_deployment_def with_env_def
  with_volumes_def volume_def mount_def at_def append1_def

theorem DeploymentMutator_pipeline_witness:
  "run_each [DeploymentPodInitContainerMutator, DeploymentListenerArgsMutator]
     (example_deployment\<lparr>InitContainers := Some [example_container]\<rparr>) example_deployment
     = Some (example_deployment\<lparr>InitContainers := Some [example_container],
               Containers := Some [example_container\<lparr>c_Args := falconArgs\<rparr>]\<rparr>, [True, True])
   \<and> DeploymentMutator [DeploymentPodInitContainerMutator, DeploymentListenerArgsMutator]
        (DeploymentObj example_deployment)
        (DeploymentObj (example_deployment\<lparr>InitContainers := Some [example_container]\<rparr>))
     = Some (DeploymentObj (example_deployment\<lparr>InitContainers := Some [example_container],
               Containers := Some [example_container\<lparr>c_Args := falconArgs\<rparr>]\<rparr>), True, None)
   \<and> run_each [DeploymentPodInitContainerMutator]
        (example_deployment\<lparr>Containers := Some []\<rparr>) example_deployment
     = Some (example_deployment, [False])
   \<and> DeploymentContainerResourcesMutator (=) (example_deployment\<lparr>Containers := Some []\<rparr>) example_deployment
     = Some (example_deployment, False, Some (ErrContainersLength 0))
   \<and> DeploymentMutator ([DeploymentPodInitContainerMutator]
          @ DeploymentContainerResourcesMutator (=) # [\<lambda>d e. None])
        (DeploymentObj example_deployment) (DeploymentObj (example_deployment\<lparr>Containers := Some []\<rparr>))
     = Some (DeploymentObj example_deployment, False, Some (ErrContainersLength 0))"
proof -
  have a: "run_each [DeploymentPodInitContainerMutator, DeploymentListenerArgsMutator]
     (example_deployment\<lparr>InitContainers := Some [example_container]\<rparr>) example_deployment
     = Some (example_deployment\<lparr>InitContainers := Some [example_container],
               Containers := Some [example_container\<lparr>c_Args := falconArgs\<rparr>]\<rparr>, [True, True])"
    by (simp add: DeploymentPodInitContainerMutator_def DeploymentListenerArgsMutator_def
        example_defs falconArgs_def)
  have b: "run_each [DeploymentPodInitContainerMutator]
        (example_deployment\<lparr>Containers := Some []\<rparr>) example_deployment
     = Some (example_deployment, [False])"
    by (simp add: DeploymentPodInitContainerMutator_def example_defs)
  have c: "DeploymentContainerResourcesMutator (=) (example_deployment\<lparr>Containers := Some []\<rparr>) example_deployment
     = Some (example_deployment, False, Some (ErrContainersLength 0))"
    by (simp add: DeploymentContainerResourcesMutator_def example_defs)
  from a b c
    DeploymentMutator_pipeline [of "[DeploymentPodInitContainerMutator, DeploymentListenerArgsMutator]"
      "example_deployment\<lparr>InitContainers := Some [example_container]\<rparr>" example_deployment
      "example_deployment\<lparr>InitContainers := Some [example_container],
               Containers := Some [example_container\<lparr>c_Args := falconArgs\<rparr>]\<rparr>" "[True, True]"
      "[]" example_deployment "[]" "\<lambda>d e. None" example_deployment False "ErrOther []" "[]"]
    DeploymentMutator_pipeline [of "[]" "example_deployment\<lparr>Containers := Some []\<rparr>" example_deployment
      example_deployment "[]" "[DeploymentPodInitContainerMutator]" example_deployment "[False]"
      "DeploymentContainerResourcesMutator (=)" example_deployment False "ErrContainersLength 0"
      "[\<lambda>d e. None]"]
  show ?thesis by simp
qed

text \<open>
  C5. When the existing or the desired object is not a Deployment, the pipeline returns
  an error with changed false and the existing object as it was, and the result is that
  of the empty pipeline: none of the composed mutators is invoked.
\<close>

theorem DeploymentMutator_type_mismatch:
  "\<not> is_Deployment existingObj \<or> \<not> is_Deployment desiredObj \<Longrightarrow>
   (\<exists>err. DeploymentMutator opts existingObj desiredObj = Some (existingObj, False, Some err))
   \<and> DeploymentMutator opts existingObj desiredObj = DeploymentMutator [] existingObj desiredObj"
  by (cases existingObj; cases desiredObj) (auto simp: DeploymentMutator_def)

theorem DeploymentMutator_type_mismatch_witness:
  "\<not> is_Deployment (OtherObj ''*v1.Service'')
   \<and> DeploymentMutator [\<lambda>d e. None] (OtherObj ''*v1.Service'') (DeploymentObj example_deployment)
       = Some (OtherObj ''*v1.Service'', False, Some (ErrNotDeployment ''*v1.Service''))
   \<and> \<not> is_Deployment (OtherObj ''*v1.ConfigMap'')
   \<and> DeploymentMutator [\<lambda>d e. None] (DeploymentObj example_deployment) (OtherObj ''*v1.ConfigMap'')
       = Some (DeploymentObj example_deployment, False, Some (ErrNotDeployment ''*v1.ConfigMap''))"
  using DeploymentMutator_type_mismatch [of "OtherObj ''*v1.Service''" "DeploymentObj example_deployment" "[\<lambda>d e. None]"]
    DeploymentMutator_type_mismatch [of "DeploymentObj example_deployment" "OtherObj ''*v1.ConfigMap''" "[\<lambda>d e. None]"]
  by (simp add: DeploymentMutator_def)

subsection \<open>Shape tests of the environment and resources mutators\<close>

text \<open>
  C3. When the numbers of containers differ, or the numbers of init containers differ,
  \<^verbatim>\<open>DeploymentEnvVarReconciler\<close> returns false and leaves existing as it was, whatever
  \<^verbatim>\<open>helper.EnvVarReconciler\<close> does; its only result is the flag, so no error is
  signalled, and it does not panic.
\<close>

theorem DeploymentEnvVarReconciler_shape_mismatch:
  "len (Containers desired) \<noteq> len (Containers existing)
   \<or> len (InitContainers desired) \<noteq> len (InitContainers existing) \<Longrightarrow>
   DeploymentEnvVarReconciler reconcile desired existing envVar = Some (existing, False)"
  by (auto simp: DeploymentEnvVarReconciler_def)

theorem DeploymentEnvVarReconciler_shape_mismatch_witness:
  "len (Containers (example_deployment\<lparr>Containers := Some [example_container, example_container]\<rparr>))
     \<noteq> len (Containers example_deployment)
   \<and> DeploymentEnvVarReconciler (\<lambda>d e n. (d, True))
        (example_deployment\<lparr>Containers := Some [example_container, example_container]\<rparr>)
        example_deployment ''A'' = Some (example_deployment, False)
   \<and> len (InitContainers (example_deployment\<lparr>InitContainers := Some [example_container]\<rparr>))
     \<noteq> len (InitContainers example_deployment)
   \<and> DeploymentEnvVarReconciler (\<lambda>d e n. (d, True))
        (example_deployment\<lparr>InitContainers := Some [example_container]\<rparr>)
        example_deployment ''A'' = Some (example_deployment, False)"
  using DeploymentEnvVarReconciler_shape_mismatch
      [of "example_deployment\<lparr>Containers := Some [example_container, example_container]\<rparr>"
          example_deployment "\<lambda>d e n. (d, True)" "''A''"]
    DeploymentEnvVarReconciler_shape_mismatch
      [of "example_deployment\<lparr>InitContainers := Some [example_container]\<rparr>"
          example_deployment "\<lambda>d e n. (d, True)" "''A''"]
  by (simp add: example_deployment_def)

text \<open>
  C4. \<^verbatim>\<open>DeploymentContainerResourcesMutator\<close>, for any \<^verbatim>\<open>helper.CmpResources\<close>. A
  desired Deployment whose container list has not length 1 gives an error and existing
  as it was. With one desired container: when existing has not exactly one container,
  its container list becomes the desired one and changed is true; otherwise the
  resource requirements of its only container become the desired ones, with changed
  true, when \<^verbatim>\<open>CmpResources\<close> finds them different, and nothing changes, with changed
  false, when it finds them equal.
\<close>

theorem DeploymentContainerResourcesMutator_cases:
  "(len (Containers desired) \<noteq> 1 \<longrightarrow>
      DeploymentContainerResourcesMutator CmpResources desired existing
        = Some (existing, False, Some (ErrContainersLength (len (Containers desired)))))
   \<and> (len (Containers desired) = 1 \<and> len (Containers existing) \<noteq> 1 \<longrightarrow>
      DeploymentContainerResourcesMutator CmpResources desired existing
        = Some (existing\<lparr>Containers := Containers desired\<rparr>, True, None))
   \<and> (elems (Containers desired) = [d0] \<and> elems (Containers existing) = [e0]
        \<and> \<not> CmpResources (c_Resources e0) (c_Resources d0) \<longrightarrow>
      DeploymentContainerResourcesMutator CmpResources desired existing
        = Some (existing\<lparr>Containers := Some [e0\<lparr>c_Resources := c_Resources d0\<rparr>]\<rparr>, True, None))
   \<and> (elems (Containers desired) = [d0] \<and> elems (Containers existing) = [e0]
        \<and> CmpResources (c_Resources e0) (c_Resources d0) \<longrightarrow>
      DeploymentContainerResourcesMutator CmpResources desired existing
        = Some (existing, False, None))"
proof (intro conjI impI)
  assume "len (Containers desired) \<noteq> 1"
  then show "DeploymentContainerResourcesMutator CmpResources desired existing
        = Some (existing, False, Some (ErrContainersLength (len (Containers desired))))"
    by (simp add: DeploymentContainerResourcesMutator_def)
next
  assume a: "len (Containers desired) = 1 \<and> len (Containers existing) \<noteq> 1"
  then obtain d where d: "Containers desired = Some [d]"
    by (cases "Containers desired"; cases "elems (Containers desired)") auto
  have "[d\<lparr>c_Resources := c_Resources d\<rparr>] = [d]" by simp
  with a d show "DeploymentContainerResourcesMutator CmpResources desired existing
        = Some (existing\<lparr>Containers := Containers desired\<rparr>, True, None)"
    by (simp add: DeploymentContainerResourcesMutator_def at_def)
next
  assume a: "elems (Containers desired) = [d0] \<and> elems (Containers existing) = [e0]
    \<and> \<not> CmpResources (c_Resources e0) (c_Resources d0)"
  then have "Containers existing = Some [e0]" by (cases "Containers existing") auto
  with a show "DeploymentContainerResourcesMutator CmpResources desired existing
        = Some (existing\<lparr>Containers := Some [e0\<lparr>c_Resources := c_Resources d0\<rparr>]\<rparr>, True, None)"
    by (simp add: DeploymentContainerResourcesMutator_def at_def len_def)
next
  assume "elems (Containers desired) = [d0] \<and> elems (Containers existing) = [e0]
    \<and> CmpResources (c_Resources e0) (c_Resources d0)"
  then show "DeploymentContainerResourcesMutator CmpResources desired existing
        = Some (existing, False, None)"
    by (simp add: DeploymentContainerResourcesMutator_def at_def len_def)
qed

theorem DeploymentContainerResourcesMutator_cases_witness:
  "len (Containers (example_deployment\<lparr>Containers := Some [example_container, example_container]\<rparr>)) \<noteq> 1
   \<and> DeploymentContainerResourcesMutator (=)
        (example_deployment\<lparr>Containers := Some [example_container, example_container]\<rparr>)
        example_deployment
       = Some (example_deployment, False, Some (ErrContainersLength 2))
   \<and> len (Containers example_deployment) = 1
   \<and> len (Containers (example_deployment\<lparr>Containers := None\<rparr>)) \<noteq> 1
   \<and> DeploymentContainerResourcesMutator (=) example_deployment (example_deployment\<lparr>Containers := None\<rparr>)
       = Some (example_deployment, True, None)
   \<and> \<not> c_Resources example_container = two_cpus
   \<and> DeploymentContainerResourcesMutator (=)
        (example_deployment\<lparr>Containers := Some [example_container\<lparr>c_Resources := two_cpus\<rparr>]\<rparr>)
        example_deployment
       = Some (example_deployment\<lparr>Containers := Some [example_container\<lparr>c_Resources := two_cpus\<rparr>]\<rparr>,
               True, None)
   \<and> DeploymentContainerResourcesMutator (=) example_deployment example_deployment
       = Some (example_deployment, False, None)"
  using DeploymentContainerResourcesMutator_cases
      [of "example_deployment\<lparr>Containers := Some [example_container, example_container]\<rparr>" "(=)"
          example_deployment]
    DeploymentContainerResourcesMutator_cases
      [of example_deployment "(=)" "example_deployment\<lparr>Containers := None\<rparr>"]
    DeploymentContainerResourcesMutator_cases
      [of "example_deployment\<lparr>Containers := Some [example_container\<lparr>c_Resources := two_cpus\<rparr>]\<rparr>"
          "(=)" example_deployment "example_container\<lparr>c_Resources := two_cpus\<rparr>" example_container]
    DeploymentContainerResourcesMutator_cases
      [of example_deployment "(=)" example_deployment example_container example_container]
  by (simp add: example_deployment_def example_container_def two_cpus_def)

subsection \<open>Init containers\<close>

lemma init_containers_loop_eq:
  "i \<le> len existing \<Longrightarrow> len existing \<le> i + length ds \<Longrightarrow>
   init_containers_loop ds i existing updated
     = (if ds = [] then existing else Some (take i (elems existing) @ ds),
        updated \<or> drop i (elems existing) \<noteq> ds)"
proof (induction ds arbitrary: i existing updated)
  case Nil
  then show ?case by (simp add: len_def)
next
  case (Cons d ds)
  let ?xs = "elems existing"
  show ?case
  proof (cases "i < len existing")
    case False
    with Cons.prems have i: "i = length ?xs" by (simp add: len_def)
    have "init_containers_loop ds (Suc i) (append1 existing d) True
            = (if ds = [] then append1 existing d
               else Some (take (Suc i) (elems (append1 existing d)) @ ds), True)"
      using Cons.IH [of "Suc i" "append1 existing d" True] i by (simp add: len_def)
    with i show ?thesis by (simp add: len_def append1_def)
  next
    case True
    then have lt: "i < length ?xs" by (simp add: len_def)
    then obtain ys where ex: "existing = Some ys" by (cases existing) auto
    from lt have dr: "drop i ?xs = ?xs ! i # drop (Suc i) ?xs"
      by (simp add: Cons_nth_drop_Suc)
    have last: "length ?xs = Suc i" if "ds = []"
      using that lt Cons.prems by (simp add: len_def)
    show ?thesis
    proof (cases "?xs ! i = d")
      case True
      have "init_containers_loop ds (Suc i) existing updated
              = (if ds = [] then existing else Some (take (Suc i) ?xs @ ds),
                 updated \<or> drop (Suc i) ?xs \<noteq> ds)"
        using Cons.IH [of "Suc i" existing updated] lt Cons.prems by (simp add: len_def)
      moreover have "existing = Some (take i ?xs @ [d])" if "ds = []"
      proof -
        from last [OF that] have "take (Suc i) ?xs = ?xs" by simp
        with True lt have "?xs = take i ?xs @ [d]" by (simp add: take_Suc_conv_app_nth)
        with ex show ?thesis by simp
      qed
      ultimately show ?thesis
        using True lt dr by (simp add: len_def take_Suc_conv_app_nth)
    next
      case False
      let ?ex = "with_elems existing (?xs[i := d])"
      have e: "elems ?ex = ?xs[i := d]" using ex by simp
      have "init_containers_loop ds (Suc i) ?ex True
              = (if ds = [] then ?ex else Some (take (Suc i) (elems ?ex) @ ds), True)"
        using Cons.IH [of "Suc i" ?ex True] lt Cons.prems e by (simp add: len_def)
      moreover have "?ex = Some (take i ?xs @ [d])" if "ds = []"
      proof -
        from last [OF that] lt have "?xs[i := d] = take i ?xs @ [d]"
          by (simp add: upd_conv_take_nth_drop)
        with ex show ?thesis by simp
      qed
      ultimately show ?thesis
        using False lt dr e by (simp add: len_def take_Suc_conv_app_nth)
    qed
  qed
qed

text \<open>
  C9, as amended. \<^verbatim>\<open>DeploymentPodInitContainerMutator\<close> always returns, without an
  error, and changes nothing but the init containers of existing. Afterwards these are
  the init containers of desired: the same number and, at each position, a container
  deeply equal to desired's. Changed is true exactly when the two sequences of init
  containers differed before the call, in number or at some position. A \<^verbatim>\<open>nil\<close> slice
  and an empty one are the same sequence here: the slice of existing is \<^verbatim>\<open>nil\<close>
  afterwards only if it was \<^verbatim>\<open>nil\<close> before and desired has no init container.
\<close>

theorem DeploymentPodInitContainerMutator_exact:
  "\<exists>ics. DeploymentPodInitContainerMutator desired existing
           = Some (existing\<lparr>InitContainers := ics\<rparr>,
                   elems (InitContainers existing) \<noteq> elems (InitContainers desired), None)
         \<and> elems ics = elems (InitContainers desired)
         \<and> (ics = None) = (InitContainers existing = None \<and> elems (InitContainers desired) = [])"
proof (cases "len (InitContainers existing) > len (InitContainers desired)")
  case True
  let ?d = "elems (InitContainers desired)" and ?e = "elems (InitContainers existing)"
  from True have ne: "?e \<noteq> ?d" "InitContainers existing \<noteq> None"
    by (cases "InitContainers existing"; auto simp: len_def)+
  have "init_containers_loop ?d 0 (Some (take (length ?d) ?e)) True
          = (if ?d = [] then Some (take (length ?d) ?e) else Some ?d, True)"
    using True by (simp add: init_containers_loop_eq len_def)
  with True ne show ?thesis
    by (auto simp: DeploymentPodInitContainerMutator_def len_def)
next
  case False
  let ?d = "elems (InitContainers desired)" and ?e = "elems (InitContainers existing)"
  have "init_containers_loop ?d 0 (InitContainers existing) False
          = (if ?d = [] then InitContainers existing else Some ?d, ?e \<noteq> ?d)"
    using False by (simp add: init_containers_loop_eq len_def)
  with False show ?thesis
    by (cases "InitContainers existing") (auto simp: DeploymentPodInitContainerMutator_def len_def)
qed

text \<open>
  C9 as stated fails, since structural equality tells an empty slice from \<^verbatim>\<open>nil\<close>.
  Desired has no init container and a \<^verbatim>\<open>nil\<close> slice, existing has one init container:
  the mutator leaves an empty slice that is not \<^verbatim>\<open>nil\<close>, which is not deeply equal to
  desired's. Desired has an empty slice and existing a \<^verbatim>\<open>nil\<close> one: the two are not
  deeply equal before the call, the mutator returns changed false, and they are not
  deeply equal after it.
\<close>

theorem DeploymentPodInitContainerMutator_counterexample:
  "DeploymentPodInitContainerMutator example_deployment
       (example_deployment\<lparr>InitContainers := Some [example_container]\<rparr>)
     = Some (example_deployment\<lparr>InitContainers := Some []\<rparr>, True, None)
   \<and> InitContainers (example_deployment\<lparr>InitContainers := Some []\<rparr>)
       \<noteq> InitContainers example_deployment
   \<and> InitContainers example_deployment
       \<noteq> InitContainers (example_deployment\<lparr>InitContainers := Some []\<rparr>)
   \<and> DeploymentPodInitContainerMutator (example_deployment\<lparr>InitContainers := Some []\<rparr>)
       example_deployment
     = Some (example_deployment, False, None)"
  by (simp add: DeploymentPodInitContainerMutator_def example_deployment_def)

subsection \<open>The listener-mode environment mutators called twice\<close>

text \<open>
  C2. The two listener-mode environment mutators at inputs where a second call still
  reports a change. \<^verbatim>\<open>DeploymentListenerEnvMutator\<close> leaves its loop at the first
  variable it rewrites, so with both variables at "0" the first call rewrites
  \<^verbatim>\<open>LISTENER_WORKERS\<close> only and the second call rewrites \<^verbatim>\<open>CONFIG_REDIS_ASYNC\<close>.
  \<^verbatim>\<open>DeploymentListenerAsyncDisableEnvMutator\<close> does the same with both at "1", and on
  the environment it converges to (\<^verbatim>\<open>CONFIG_REDIS_ASYNC\<close> at "0", no
  \<^verbatim>\<open>LISTENER_WORKERS\<close>) it returns changed true on every call, changing nothing.
\<close>

theorem listener_env_mutators_second_call:
  "DeploymentListenerEnvMutator example_deployment
       (with_env [EnvVarFromValue ''LISTENER_WORKERS'' ''0'', EnvVarFromValue ''CONFIG_REDIS_ASYNC'' ''0''])
     = Some (with_env [EnvVarFromValue ''LISTENER_WORKERS'' ''1'', EnvVarFromValue ''CONFIG_REDIS_ASYNC'' ''0''],
             True, None)
   \<and> DeploymentListenerEnvMutator example_deployment
       (with_env [EnvVarFromValue ''LISTENER_WORKERS'' ''1'', EnvVarFromValue ''CONFIG_REDIS_ASYNC'' ''0''])
     = Some (with_env [EnvVarFromValue ''LISTENER_WORKERS'' ''1'', EnvVarFromValue ''CONFIG_REDIS_ASYNC'' ''1''],
             True, None)
   \<and> DeploymentListenerAsyncDisableEnvMutator example_deployment
       (with_env [EnvVarFromValue ''LISTENER_WORKERS'' ''1'', EnvVarFromValue ''CONFIG_REDIS_ASYNC'' ''1''])
     = Some (with_env [EnvVarFromValue ''CONFIG_REDIS_ASYNC'' ''1''], True, None)
   \<and> DeploymentListenerAsyncDisableEnvMutator example_deployment
       (with_env [EnvVarFromValue ''CONFIG_REDIS_ASYNC'' ''1''])
     = Some (with_env [EnvVarFromValue ''CONFIG_REDIS_ASYNC'' ''0''], True, None)
   \<and> DeploymentListenerAsyncDisableEnvMutator example_deployment
       (with_env [EnvVarFromValue ''CONFIG_REDIS_ASYNC'' ''0''])
     = Some (with_env [EnvVarFromValue ''CONFIG_REDIS_ASYNC'' ''0''], True, None)"
  by (simp add: DeploymentListenerEnvMutator_def DeploymentListenerAsyncDisableEnvMutator_def
      set_Env0_def set_Value_def removeEnvVar_def EnvVarFromValue_def example_defs)

subsection \<open>Indexing without a test of the length\<close>

lemma args_loop_None:
  "i \<le> length existing \<Longrightarrow>
   (args_loop ds i existing updated = None) = (length existing < i + length ds)"
proof (induction ds arbitrary: i existing updated)
  case Nil
  then show ?case by simp
next
  case (Cons d ds)
  show ?case
  proof (cases "i < length existing")
    case True
    then show ?thesis by (simp add: at_def Cons.IH)
  next
    case False
    with Cons.prems show ?thesis by (simp add: at_def)
  qed
qed

lemma probes_loop_None:
  "i \<le> length existing \<Longrightarrow>
   (probes_loop ds i existing updated = None) = (length existing < i + length ds)"
proof (induction ds arbitrary: i existing updated)
  case Nil
  then show ?case by simp
next
  case (Cons d ds)
  show ?case
  proof (cases "i < length existing")
    case True
    then show ?thesis by (simp add: at_def Cons.IH split: prod.splits)
  next
    case False
    with Cons.prems show ?thesis by (simp add: at_def)
  qed
qed

lemma sync_containers_loop_None:
  "cIdx + length rest = length existing \<Longrightarrow>
   (sync_containers_loop rest cIdx desired existing changed = None)
     = (rest \<noteq> [] \<and> length desired < length existing)"
proof (induction rest arbitrary: cIdx existing changed)
  case Nil
  then show ?case by simp
next
  case (Cons x rest)
  then have lt: "cIdx < length existing" by simp
  show ?case
  proof (cases "cIdx < length desired")
    case False
    with lt show ?thesis by (simp add: at_def)
  next
    case True
    have "Suc cIdx + length rest = length (existing[cIdx := c])" for c
      using Cons.prems by simp
    note ih = Cons.IH [OF this] Cons.IH [of "Suc cIdx" existing]
    from True lt Cons.prems show ?thesis
      by (cases "rest = []") (auto simp: at_def ih split: prod.splits)
  qed
qed

lemma bind_eq_None_iff:
  "(Option.bind m f = None) = (m = None \<or> (\<exists>x. m = Some x \<and> f x = None))"
  by (cases m) auto


text \<open>
  C10. The mutators that index a container list without a test of its length. They
  never return an error, and they panic on an index out of range exactly when:
  \<^verbatim>\<open>DeploymentArgsMutator\<close> and \<^verbatim>\<open>DeploymentProbesMutator\<close>, existing has fewer
  containers than desired; \<^verbatim>\<open>DeploymentListenerArgsMutator\<close>, existing has no
  container; \<^verbatim>\<open>DeploymentSyncVolumesAndMountsMutator\<close>, desired has fewer containers
  or fewer init containers than existing.
\<close>

theorem unchecked_index_panics:
  "(DeploymentArgsMutator desired existing = None)
     = (len (Containers existing) < len (Containers desired))
   \<and> (DeploymentProbesMutator desired existing = None)
     = (len (Containers existing) < len (Containers desired))
   \<and> (DeploymentListenerArgsMutator desired existing = None) = (elems (Containers existing) = [])
   \<and> (DeploymentSyncVolumesAndMountsMutator desired existing = None)
     = (len (Containers desired) < len (Containers existing)
        \<or> len (InitContainers desired) < len (InitContainers existing))
   \<and> DeploymentArgsMutator desired existing \<noteq> Some (existing', changed, Some err)
   \<and> DeploymentProbesMutator desired existing \<noteq> Some (existing', changed, Some err)
   \<and> DeploymentListenerArgsMutator desired existing \<noteq> Some (existing', changed, Some err)
   \<and> DeploymentSyncVolumesAndMountsMutator desired existing \<noteq> Some (existing', changed, Some err)"
proof (intro conjI)
  show "(DeploymentArgsMutator desired existing = None)
     = (len (Containers existing) < len (Containers desired))"
    by (simp add: DeploymentArgsMutator_def bind_eq_None_iff args_loop_None len_def)
  show "(DeploymentProbesMutator desired existing = None)
     = (len (Containers existing) < len (Containers desired))"
    by (simp add: DeploymentProbesMutator_def bind_eq_None_iff probes_loop_None len_def)
  show "(DeploymentListenerArgsMutator desired existing = None) = (elems (Containers existing) = [])"
    by (cases "elems (Containers existing)") (auto simp: DeploymentListenerArgsMutator_def at_def)
  show "(DeploymentSyncVolumesAndMountsMutator desired existing = None)
     = (len (Containers desired) < len (Containers existing)
        \<or> len (InitContainers desired) < len (InitContainers existing))"
  proof -
    let ?v0 = "if Volumes existing = None then Some [] else Volumes existing"
    obtain vs c1 where v: "add_missing_volumes (elems (Volumes desired)) ?v0 False = (vs, c1)"
      by (cases "add_missing_volumes (elems (Volumes desired)) ?v0 False")
    let ?l1 = "sync_containers_loop (elems (Containers existing)) 0 (elems (Containers desired))
                 (elems (Containers existing)) c1"
    have n1: "(?l1 = None) = (len (Containers desired) < len (Containers existing))"
      using sync_containers_loop_None [of 0 "elems (Containers existing)"
          "elems (Containers existing)" "elems (Containers desired)" c1] by (auto simp: len_def)
    show ?thesis
    proof (cases ?l1)
      case None
      with n1 v show ?thesis
        by (simp add: DeploymentSyncVolumesAndMountsMutator_def Let_def)
    next
      case (Some r)
      obtain cs c2 where r: "r = (cs, c2)" by (cases r)
      have n2: "(sync_containers_loop (elems (InitContainers existing)) 0
                   (elems (InitContainers desired)) (elems (InitContainers existing)) c2 = None)
                = (len (InitContainers desired) < len (InitContainers existing))"
        using sync_containers_loop_None [of 0 "elems (InitContainers existing)"
            "elems (InitContainers existing)" "elems (InitContainers desired)" c2]
        by (auto simp: len_def)
      from Some r n1 n2 v show ?thesis
        by (simp add: DeploymentSyncVolumesAndMountsMutator_def Let_def bind_eq_None_iff
            split: prod.splits)
    qed
  qed
  show "DeploymentArgsMutator desired existing \<noteq> Some (existing', changed, Some err)"
    by (auto simp: DeploymentArgsMutator_def split: bind_splits)
  show "DeploymentProbesMutator desired existing \<noteq> Some (existing', changed, Some err)"
    by (auto simp: DeploymentProbesMutator_def split: bind_splits)
  show "DeploymentListenerArgsMutator desired existing \<noteq> Some (existing', changed, Some err)"
    by (auto simp: DeploymentListenerArgsMutator_def split: bind_splits if_splits)
  show "DeploymentSyncVolumesAndMountsMutator desired existing \<noteq> Some (existing', changed, Some err)"
    by (auto simp: DeploymentSyncVolumesAndMountsMutator_def Let_def split: bind_splits prod.splits)
qed

subsection \<open>Volumes and mounts are only added by the sync mutator\<close>

lemma volumeExists_iff: "volumeExists volumes name = (name \<in> v_Name ` set volumes)"
  by (induction volumes) auto

lemma volumeMountExists_iff: "volumeMountExists mounts name = (name \<in> vm_Name ` set mounts)"
  by (induction mounts) auto

lemma add_missing_volumes_props:
  "add_missing_volumes dvs volumes changed = (volumes', changed') \<Longrightarrow>
   prefix (elems volumes) (elems volumes') \<and> v_Name ` set dvs \<subseteq> v_Name ` set (elems volumes')"
proof (induction dvs arbitrary: volumes changed)
  case Nil
  then show ?case by simp
next
  case (Cons dv dvs)
  show ?case
  proof (cases "volumeExists (elems volumes) (v_Name dv)")
    case True
    with Cons.prems have "add_missing_volumes dvs volumes changed = (volumes', changed')"
      by simp
    from Cons.IH [OF this] have p: "prefix (elems volumes) (elems volumes')"
      and s: "v_Name ` set dvs \<subseteq> v_Name ` set (elems volumes')" by simp_all
    from True have "v_Name dv \<in> v_Name ` set (elems volumes)" by (simp add: volumeExists_iff)
    with set_mono_prefix [OF p] have "v_Name dv \<in> v_Name ` set (elems volumes')" by blast
    with p s show ?thesis by simp
  next
    case False
    with Cons.prems have "add_missing_volumes dvs (append1 volumes dv) True = (volumes', changed')"
      by simp
    from Cons.IH [OF this] have p: "prefix (elems volumes @ [dv]) (elems volumes')"
      and s: "v_Name ` set dvs \<subseteq> v_Name ` set (elems volumes')" by simp_all
    from set_mono_prefix [OF p] have "v_Name dv \<in> v_Name ` set (elems volumes')" by auto
    moreover from p have "prefix (elems volumes) (elems volumes')" by (rule append_prefixD)
    ultimately show ?thesis using s by simp
  qed
qed

lemma sync_mounts_loop_props:
  "sync_mounts_loop existingMounts dms new changed = (changed', new') \<Longrightarrow>
   prefix (elems new) (elems new')
   \<and> vm_Name ` set dms \<subseteq> vm_Name ` set (elems existingMounts) \<union> vm_Name ` set (elems new')"
proof (induction dms arbitrary: new changed)
  case Nil
  then show ?case by simp
next
  case (Cons dm dms)
  show ?case
  proof (cases "volumeMountExists (elems existingMounts) (vm_Name dm)")
    case True
    with Cons.prems have "sync_mounts_loop existingMounts dms new changed = (changed', new')"
      by simp
    from Cons.IH [OF this] True show ?thesis by (simp add: volumeMountExists_iff)
  next
    case False
    with Cons.prems
    have "sync_mounts_loop existingMounts dms (append1 new dm) True = (changed', new')"
      by simp
    from Cons.IH [OF this] have p: "prefix (elems new @ [dm]) (elems new')"
      and s: "vm_Name ` set dms
                \<subseteq> vm_Name ` set (elems existingMounts) \<union> vm_Name ` set (elems new')"
      by simp_all
    from set_mono_prefix [OF p] have "vm_Name dm \<in> vm_Name ` set (elems new')" by auto
    moreover from p have "prefix (elems new) (elems new')" by (rule append_prefixD)
    ultimately show ?thesis using s by simp
  qed
qed

lemma syncVolumeMounts_props:
  assumes "syncVolumeMounts existingMounts desiredMounts = (updated, new)"
  shows "prefix (elems existingMounts) (elems new)"
    and "vm_Name ` set (elems desiredMounts) \<subseteq> vm_Name ` set (elems new)"
proof -
  from assms sync_mounts_loop_props [of existingMounts "elems desiredMounts" existingMounts
      False updated new]
  have p: "prefix (elems existingMounts) (elems new)"
    and s: "vm_Name ` set (elems desiredMounts)
              \<subseteq> vm_Name ` set (elems existingMounts) \<union> vm_Name ` set (elems new)"
    by (simp_all add: syncVolumeMounts_def)
  show "prefix (elems existingMounts) (elems new)" by (rule p)
  from set_mono_prefix [OF p] s
  show "vm_Name ` set (elems desiredMounts) \<subseteq> vm_Name ` set (elems new)"
    by blast
qed

lemma syncVolumeMounts_unchanged:
  "syncVolumeMounts existingMounts desiredMounts = (False, new) \<Longrightarrow>
   vm_Name ` set (elems desiredMounts) \<subseteq> vm_Name ` set (elems existingMounts)"
proof -
  have "sync_mounts_loop em dms n c = (False, n') \<Longrightarrow> vm_Name ` set dms \<subseteq> vm_Name ` set (elems em)"
    for em dms n c n'
  proof (induction dms arbitrary: n c)
    case Nil
    then show ?case by simp
  next
    case (Cons dm dms)
    have t: "sync_mounts_loop em xs m True \<noteq> (False, n')" for xs m
      by (induction xs arbitrary: m) auto
    from Cons.prems t have "volumeMountExists (elems em) (vm_Name dm)"
      by (auto split: if_splits)
    with Cons show ?case by (auto simp: volumeMountExists_iff)
  qed
  then show "syncVolumeMounts existingMounts desiredMounts = (False, new) \<Longrightarrow>
   vm_Name ` set (elems desiredMounts) \<subseteq> vm_Name ` set (elems existingMounts)"
    by (simp add: syncVolumeMounts_def)
qed

lemma sync_containers_loop_props:
  "sync_containers_loop rest cIdx desired existing changed = Some (cs, changed') \<Longrightarrow>
   cIdx + length rest = length existing \<Longrightarrow> mounts_added desired existing cs cIdx"
proof (induction rest arbitrary: cIdx existing changed)
  case Nil
  then show ?case by (simp add: mounts_added_def)
next
  case (Cons x rest)
  from Cons.prems have lt: "cIdx < length existing" by simp
  with Cons.prems(1) have ltd: "cIdx < length desired"
    by (auto simp: at_def split: if_splits)
  let ?e = "existing ! cIdx" and ?d = "desired ! cIdx"
  obtain updated new where sv: "syncVolumeMounts (c_VolumeMounts ?e) (c_VolumeMounts ?d) = (updated, new)"
    by (cases "syncVolumeMounts (c_VolumeMounts ?e) (c_VolumeMounts ?d)")
  note pv = syncVolumeMounts_props [OF sv]
  show ?case
  proof (cases updated)
    case True
    let ?ex = "existing[cIdx := ?e\<lparr>c_VolumeMounts := new\<rparr>]"
    from Cons.prems(1) lt ltd sv True
    have "sync_containers_loop rest (Suc cIdx) desired ?ex True = Some (cs, changed')"
      by (simp add: at_def)
    moreover have "Suc cIdx + length rest = length ?ex" using Cons.prems(2) by simp
    ultimately have ih: "mounts_added desired ?ex cs (Suc cIdx)" by (rule Cons.IH)
    show ?thesis
      unfolding mounts_added_def
    proof (intro conjI allI impI)
      from ih show "length cs = length existing" by (simp add: mounts_added_def)
    next
      fix j assume j: "j < length existing"
      from ih j have pj: "prefix (elems (c_VolumeMounts (?ex ! j))) (elems (c_VolumeMounts (cs ! j)))"
        by (simp add: mounts_added_def)
      show "prefix (elems (c_VolumeMounts (existing ! j))) (elems (c_VolumeMounts (cs ! j)))"
      proof (cases "j = cIdx")
        case True
        with pj lt have "prefix (elems new) (elems (c_VolumeMounts (cs ! j)))" by simp
        with pv(1) True show ?thesis by (metis prefix_order.trans)
      next
        case False
        with pj show ?thesis by simp
      qed
    next
      fix j assume j: "j < length existing" and c: "cIdx \<le> j"
      show "j < length desired"
      proof (cases "j = cIdx")
        case True
        with ltd show ?thesis by simp
      next
        case False
        with c j ih show ?thesis by (simp add: mounts_added_def)
      qed
    next
      fix j assume j: "j < length existing" and c: "cIdx \<le> j"
      show "vm_Name ` set (elems (c_VolumeMounts (desired ! j)))
              \<subseteq> vm_Name ` set (elems (c_VolumeMounts (cs ! j)))"
      proof (cases "j = cIdx")
        case True
        from ih j have "prefix (elems (c_VolumeMounts (?ex ! j))) (elems (c_VolumeMounts (cs ! j)))"
          by (simp add: mounts_added_def)
        with True lt have "prefix (elems new) (elems (c_VolumeMounts (cs ! j)))" by simp
        from set_mono_prefix [OF this] pv(2) True show ?thesis by blast
      next
        case False
        with c j ih show ?thesis by (simp add: mounts_added_def)
      qed
    qed
  next
    case False
    from Cons.prems(1) lt ltd sv False
    have "sync_containers_loop rest (Suc cIdx) desired existing changed = Some (cs, changed')"
      by (simp add: at_def)
    moreover have "Suc cIdx + length rest = length existing" using Cons.prems(2) by simp
    ultimately have ih: "mounts_added desired existing cs (Suc cIdx)" by (rule Cons.IH)
    from sv False have sub: "vm_Name ` set (elems (c_VolumeMounts ?d))
                     \<subseteq> vm_Name ` set (elems (c_VolumeMounts ?e))"
      by (simp add: syncVolumeMounts_unchanged)
    show ?thesis
      unfolding mounts_added_def
    proof (intro conjI allI impI)
      from ih show "length cs = length existing" by (simp add: mounts_added_def)
    next
      fix j assume j: "j < length existing"
      with ih show "prefix (elems (c_VolumeMounts (existing ! j))) (elems (c_VolumeMounts (cs ! j)))"
        by (simp add: mounts_added_def)
    next
      fix j assume j: "j < length existing" and c: "cIdx \<le> j"
      show "j < length desired"
      proof (cases "j = cIdx")
        case True
        with ltd show ?thesis by simp
      next
        case False
        with c j ih show ?thesis by (simp add: mounts_added_def)
      qed
    next
      fix j assume j: "j < length existing" and c: "cIdx \<le> j"
      show "vm_Name ` set (elems (c_VolumeMounts (desired ! j)))
              \<subseteq> vm_Name ` set (elems (c_VolumeMounts (cs ! j)))"
      proof (cases "j = cIdx")
        case True
        from ih j have "prefix (elems (c_VolumeMounts (existing ! j))) (elems (c_VolumeMounts (cs ! j)))"
          by (simp add: mounts_added_def)
        from set_mono_prefix [OF this] sub True show ?thesis by blast
      next
        case False
        with c j ih show ?thesis by (simp add: mounts_added_def)
      qed
    qed
  qed
qed


text \<open>
  C6. Whenever \<^verbatim>\<open>DeploymentSyncVolumesAndMountsMutator\<close> returns, it returns no error;
  the volumes of existing are kept, in place, as the first volumes of the result, so
  the set of volume names only grows, and every volume name of desired is among the
  names of the result; the containers and the init containers keep their number, and
  for each of them the volume mounts are kept in the same way and every mount name of
  the desired container at the same index is among the mount names of the result.
\<close>

theorem DeploymentSyncVolumesAndMountsMutator_additive:
  "DeploymentSyncVolumesAndMountsMutator desired existing = Some (existing', changed, err) \<Longrightarrow>
   err = None
   \<and> prefix (elems (Volumes existing)) (elems (Volumes existing'))
   \<and> v_Name ` set (elems (Volumes existing)) \<subseteq> v_Name ` set (elems (Volumes existing'))
   \<and> v_Name ` set (elems (Volumes desired)) \<subseteq> v_Name ` set (elems (Volumes existing'))
   \<and> len (Containers existing') = len (Containers existing)
   \<and> len (InitContainers existing') = len (InitContainers existing)
   \<and> (\<forall>i < len (Containers existing).
         prefix (elems (c_VolumeMounts (elems (Containers existing) ! i)))
                (elems (c_VolumeMounts (elems (Containers existing') ! i)))
         \<and> vm_Name ` set (elems (c_VolumeMounts (elems (Containers existing) ! i)))
             \<subseteq> vm_Name ` set (elems (c_VolumeMounts (elems (Containers existing') ! i)))
         \<and> i < len (Containers desired)
         \<and> vm_Name ` set (elems (c_VolumeMounts (elems (Containers desired) ! i)))
             \<subseteq> vm_Name ` set (elems (c_VolumeMounts (elems (Containers existing') ! i))))
   \<and> (\<forall>i < len (InitContainers existing).
         prefix (elems (c_VolumeMounts (elems (InitContainers existing) ! i)))
                (elems (c_VolumeMounts (elems (InitContainers existing') ! i)))
         \<and> vm_Name ` set (elems (c_VolumeMounts (elems (InitContainers existing) ! i)))
             \<subseteq> vm_Name ` set (elems (c_VolumeMounts (elems (InitContainers existing') ! i)))
         \<and> i < len (InitContainers desired)
         \<and> vm_Name ` set (elems (c_VolumeMounts (elems (InitContainers desired) ! i)))
             \<subseteq> vm_Name ` set (elems (c_VolumeMounts (elems (InitContainers existing') ! i))))"
proof -
  assume a: "DeploymentSyncVolumesAndMountsMutator desired existing = Some (existing', changed, err)"
  let ?v0 = "if Volumes existing = None then Some [] else Volumes existing"
  have v0: "elems ?v0 = elems (Volumes existing)" by simp
  obtain vs c1 where v: "add_missing_volumes (elems (Volumes desired)) ?v0 False = (vs, c1)"
    by (cases "add_missing_volumes (elems (Volumes desired)) ?v0 False")
  from a v obtain cs c2 ics where
    l1: "sync_containers_loop (elems (Containers existing)) 0 (elems (Containers desired))
           (elems (Containers existing)) c1 = Some (cs, c2)" and
    l2: "sync_containers_loop (elems (InitContainers existing)) 0 (elems (InitContainers desired))
           (elems (InitContainers existing)) c2 = Some (ics, changed)" and
    e': "existing' = existing\<lparr>Volumes := vs, Containers := with_elems (Containers existing) cs,
                       InitContainers := with_elems (InitContainers existing) ics\<rparr>" and
    err: "err = None"
    by (auto simp: DeploymentSyncVolumesAndMountsMutator_def Let_def split: bind_splits)
  from add_missing_volumes_props [OF v] v0
  have pv: "prefix (elems (Volumes existing)) (elems vs)"
    and sv: "v_Name ` set (elems (Volumes desired)) \<subseteq> v_Name ` set (elems vs)"
    by simp_all
  from set_mono_prefix [OF pv]
  have sv': "v_Name ` set (elems (Volumes existing)) \<subseteq> v_Name ` set (elems vs)"
    by blast
  have m1: "mounts_added (elems (Containers desired)) (elems (Containers existing)) cs 0"
    using l1 by (rule sync_containers_loop_props) simp
  have m2: "mounts_added (elems (InitContainers desired)) (elems (InitContainers existing)) ics 0"
    using l2 by (rule sync_containers_loop_props) simp
  have g: "\<forall>i < length ex.
         prefix (elems (c_VolumeMounts (ex ! i))) (elems (c_VolumeMounts (res ! i)))
         \<and> vm_Name ` set (elems (c_VolumeMounts (ex ! i)))
             \<subseteq> vm_Name ` set (elems (c_VolumeMounts (res ! i)))
         \<and> i < length de
         \<and> vm_Name ` set (elems (c_VolumeMounts (de ! i)))
             \<subseteq> vm_Name ` set (elems (c_VolumeMounts (res ! i)))"
    if "mounts_added de ex res 0" for de ex res
  proof (intro allI impI)
    fix i assume i: "i < length ex"
    with that have p: "prefix (elems (c_VolumeMounts (ex ! i))) (elems (c_VolumeMounts (res ! i)))"
      and d: "i < length de"
      and s: "vm_Name ` set (elems (c_VolumeMounts (de ! i)))
                \<subseteq> vm_Name ` set (elems (c_VolumeMounts (res ! i)))"
      by (simp_all add: mounts_added_def)
    from set_mono_prefix [OF p]
    have "vm_Name ` set (elems (c_VolumeMounts (ex ! i)))
            \<subseteq> vm_Name ` set (elems (c_VolumeMounts (res ! i)))"
      by blast
    with p d s
    show "prefix (elems (c_VolumeMounts (ex ! i))) (elems (c_VolumeMounts (res ! i)))
         \<and> vm_Name ` set (elems (c_VolumeMounts (ex ! i)))
             \<subseteq> vm_Name ` set (elems (c_VolumeMounts (res ! i)))
         \<and> i < length de
         \<and> vm_Name ` set (elems (c_VolumeMounts (de ! i)))
             \<subseteq> vm_Name ` set (elems (c_VolumeMounts (res ! i)))"
      by simp
  qed
  from m1 m2 have len: "length cs = len (Containers existing)"
    "length ics = len (InitContainers existing)"
    by (simp_all add: mounts_added_def len_def)
  then have el: "elems (with_elems (Containers existing) cs) = cs"
    "elems (with_elems (InitContainers existing) ics) = ics"
    by (simp_all add: elems_with_elems)
  from err pv sv sv' len el g [OF m1] g [OF m2] show ?thesis
    unfolding e' by (simp add: len_def)
qed

theorem DeploymentSyncVolumesAndMountsMutator_additive_witness:
  "DeploymentSyncVolumesAndMountsMutator
       (with_volumes [volume ''data'', volume ''cfg''] [mount ''data'' ''/d'', mount ''cfg'' ''/c''])
       (with_volumes [volume ''old'', volume ''cfg''] [mount ''old'' ''/o''])
     = Some (with_volumes [volume ''old'', volume ''cfg'', volume ''data'']
               [mount ''old'' ''/o'', mount ''data'' ''/d'', mount ''cfg'' ''/c''], True, None)
   \<and> v_Name ` set (elems (Volumes (with_volumes [volume ''old'', volume ''cfg'']
               [mount ''old'' ''/o''])))
       \<subseteq> v_Name ` set (elems (Volumes (with_volumes [volume ''old'', volume ''cfg'', volume ''data'']
               [mount ''old'' ''/o'', mount ''data'' ''/d'', mount ''cfg'' ''/c''])))
   \<and> v_Name ` set (elems (Volumes (with_volumes [volume ''data'', volume ''cfg'']
               [mount ''data'' ''/d'', mount ''cfg'' ''/c''])))
       \<subseteq> v_Name ` set (elems (Volumes (with_volumes [volume ''old'', volume ''cfg'', volume ''data'']
               [mount ''old'' ''/o'', mount ''data'' ''/d'', mount ''cfg'' ''/c''])))
   \<and> 0 < len (Containers (with_volumes [volume ''old'', volume ''cfg''] [mount ''old'' ''/o'']))
   \<and> vm_Name ` set (elems (c_VolumeMounts (elems (Containers (with_volumes
               [volume ''data'', volume ''cfg'']
               [mount ''data'' ''/d'', mount ''cfg'' ''/c''])) ! 0)))
       \<subseteq> vm_Name ` set (elems (c_VolumeMounts (elems (Containers (with_volumes
               [volume ''old'', volume ''cfg'', volume ''data'']
               [mount ''old'' ''/o'', mount ''data'' ''/d'', mount ''cfg'' ''/c''])) ! 0)))"
proof -
  have l: "0 < len (Containers (with_volumes [volume ''old'', volume ''cfg''] [mount ''old'' ''/o'']))"
    by (simp add: with_volumes_def)
  have h: "DeploymentSyncVolumesAndMountsMutator
       (with_volumes [volume ''data'', volume ''cfg''] [mount ''data'' ''/d'', mount ''cfg'' ''/c''])
       (with_volumes [volume ''old'', volume ''cfg''] [mount ''old'' ''/o''])
     = Some (with_volumes [volume ''old'', volume ''cfg'', volume ''data'']
               [mount ''old'' ''/o'', mount ''data'' ''/d'', mount ''cfg'' ''/c''], True, None)"
    by (simp add: DeploymentSyncVolumesAndMountsMutator_def syncVolumeMounts_def example_defs)
  from DeploymentSyncVolumesAndMountsMutator_additive [OF h] h l show ?thesis
    by blast
qed

subsection \<open>Merging labels and annotations\<close>

lemma MergeMapStringString_props:
  assumes "MergeMapStringString False existing desired = (changed, m)"
  shows "fmlookup desired k = Some v \<Longrightarrow> fmlookup m k = Some v"
    and "fmlookup desired k = None \<Longrightarrow> fmlookup m k = fmlookup existing k"
    and "changed = (m \<noteq> existing)"
proof -
  from assms have m: "m = existing ++\<^sub>f desired" and c: "changed = (m \<noteq> existing)"
    by (auto simp: MergeMapStringString_def Let_def)
  show "changed = (m \<noteq> existing)" by (rule c)
  show "fmlookup desired k = Some v \<Longrightarrow> fmlookup m k = Some v"
    by (simp add: m fmlookup_dom_iff)
  show "fmlookup desired k = None \<Longrightarrow> fmlookup m k = fmlookup existing k"
    by (simp add: m fmlookup_dom_iff)
qed

text \<open>
  C8. The three map-merge mutators, with \<^verbatim>\<open>helper.MergeMapStringString\<close> as the
  specification describes it. Each always returns, without an error, and changes only
  its own map; afterwards that map has the value of desired at every key of desired and
  the value it had at every other key, and changed is true exactly when the map after
  the call differs from the map before.
\<close>

theorem map_merge_mutators:
  "(\<exists>r. DeploymentAnnotationsMutator desired existing = Some r)
   \<and> (DeploymentAnnotationsMutator desired existing = Some (ea, ca, erra) \<longrightarrow>
        erra = None \<and> ea = existing\<lparr>Annotations := Annotations ea\<rparr>
        \<and> (fmlookup (Annotations desired) k = Some v \<longrightarrow> fmlookup (Annotations ea) k = Some v)
        \<and> (fmlookup (Annotations desired) k = None \<longrightarrow>
              fmlookup (Annotations ea) k = fmlookup (Annotations existing) k)
        \<and> ca = (Annotations ea \<noteq> Annotations existing))
   \<and> (\<exists>r. DeploymentPodTemplateAnnotationsMutator desired existing = Some r)
   \<and> (DeploymentPodTemplateAnnotationsMutator desired existing = Some (et, ct, errt) \<longrightarrow>
        errt = None \<and> et = existing\<lparr>TemplateAnnotations := TemplateAnnotations et\<rparr>
        \<and> (fmlookup (TemplateAnnotations desired) k = Some v \<longrightarrow>
              fmlookup (TemplateAnnotations et) k = Some v)
        \<and> (fmlookup (TemplateAnnotations desired) k = None \<longrightarrow>
              fmlookup (TemplateAnnotations et) k = fmlookup (TemplateAnnotations existing) k)
        \<and> ct = (TemplateAnnotations et \<noteq> TemplateAnnotations existing))
   \<and> (\<exists>r. DeploymentPodTemplateLabelsMutator desired existing = Some r)
   \<and> (DeploymentPodTemplateLabelsMutator desired existing = Some (el, cl, errl) \<longrightarrow>
        errl = None \<and> el = existing\<lparr>TemplateLabels := TemplateLabels el\<rparr>
        \<and> (fmlookup (TemplateLabels desired) k = Some v \<longrightarrow> fmlookup (TemplateLabels el) k = Some v)
        \<and> (fmlookup (TemplateLabels desired) k = None \<longrightarrow>
              fmlookup (TemplateLabels el) k = fmlookup (TemplateLabels existing) k)
        \<and> cl = (TemplateLabels el \<noteq> TemplateLabels existing))"
proof (intro conjI impI)
  show "\<exists>r. DeploymentAnnotationsMutator desired existing = Some r"
    by (simp add: DeploymentAnnotationsMutator_def split: prod.splits)
  show "\<exists>r. DeploymentPodTemplateAnnotationsMutator desired existing = Some r"
    by (simp add: DeploymentPodTemplateAnnotationsMutator_def split: prod.splits)
  show "\<exists>r. DeploymentPodTemplateLabelsMutator desired existing = Some r"
    by (simp add: DeploymentPodTemplateLabelsMutator_def split: prod.splits)
next
  assume a: "DeploymentAnnotationsMutator desired existing = Some (ea, ca, erra)"
  then obtain m where
    mm: "MergeMapStringString False (Annotations existing) (Annotations desired) = (ca, m)"
    and ea: "ea = existing\<lparr>Annotations := m\<rparr>" and e: "erra = None"
    by (auto simp: DeploymentAnnotationsMutator_def split: prod.splits)
  note p = MergeMapStringString_props [OF mm]
  from e show "erra = None" .
  from ea show "ea = existing\<lparr>Annotations := Annotations ea\<rparr>" by simp
  from ea p(3) show "ca = (Annotations ea \<noteq> Annotations existing)" by simp
  { assume "fmlookup (Annotations desired) k = Some v"
    with ea p(1) show "fmlookup (Annotations ea) k = Some v" by simp }
  { assume "fmlookup (Annotations desired) k = None"
    with ea p(2) show "fmlookup (Annotations ea) k = fmlookup (Annotations existing) k" by simp }
next
  assume a: "DeploymentPodTemplateAnnotationsMutator desired existing = Some (et, ct, errt)"
  then obtain m where
    mm: "MergeMapStringString False (TemplateAnnotations existing) (TemplateAnnotations desired) = (ct, m)"
    and et: "et = existing\<lparr>TemplateAnnotations := m\<rparr>" and e: "errt = None"
    by (auto simp: DeploymentPodTemplateAnnotationsMutator_def split: prod.splits)
  note p = MergeMapStringString_props [OF mm]
  from e show "errt = None" .
  from et show "et = existing\<lparr>TemplateAnnotations := TemplateAnnotations et\<rparr>" by simp
  from et p(3) show "ct = (TemplateAnnotations et \<noteq> TemplateAnnotations existing)" by simp
  { assume "fmlookup (TemplateAnnotations desired) k = Some v"
    with et p(1) show "fmlookup (TemplateAnnotations et) k = Some v" by simp }
  { assume "fmlookup (TemplateAnnotations desired) k = None"
    with et p(2) show "fmlookup (TemplateAnnotations et) k = fmlookup (TemplateAnnotations existing) k"
      by simp }
next
  assume a: "DeploymentPodTemplateLabelsMutator desired existing = Some (el, cl, errl)"
  then obtain m where
    mm: "MergeMapStringString False (TemplateLabels existing) (TemplateLabels desired) = (cl, m)"
    and el: "el = existing\<lparr>TemplateLabels := m\<rparr>" and e: "errl = None"
    by (auto simp: DeploymentPodTemplateLabelsMutator_def split: prod.splits)
  note p = MergeMapStringString_props [OF mm]
  from e show "errl = None" .
  from el show "el = existing\<lparr>TemplateLabels := TemplateLabels el\<rparr>" by simp
  from el p(3) show "cl = (TemplateLabels el \<noteq> TemplateLabels existing)" by simp
  { assume "fmlookup (TemplateLabels desired) k = Some v"
    with el p(1) show "fmlookup (TemplateLabels el) k = Some v" by simp }
  { assume "fmlookup (TemplateLabels desired) k = None"
    with el p(2) show "fmlookup (TemplateLabels el) k = fmlookup (TemplateLabels existing) k"
      by simp }
qed

lemma example_maps_differ: "existing_map ++\<^sub>f desired_map \<noteq> existing_map"
proof
  assume "existing_map ++\<^sub>f desired_map = existing_map"
  then have "fmlookup (existing_map ++\<^sub>f desired_map) ''app'' = fmlookup existing_map ''app''"
    by simp
  then show False by (simp add: existing_map_def desired_map_def)
qed

theorem map_merge_mutators_witness:
  "DeploymentAnnotationsMutator (with_maps desired_map) (with_maps existing_map)
     = Some ((with_maps existing_map)\<lparr>Annotations := existing_map ++\<^sub>f desired_map\<rparr>, True, None)
   \<and> DeploymentPodTemplateAnnotationsMutator (with_maps desired_map) (with_maps existing_map)
     = Some ((with_maps existing_map)\<lparr>TemplateAnnotations := existing_map ++\<^sub>f desired_map\<rparr>, True, None)
   \<and> DeploymentPodTemplateLabelsMutator (with_maps desired_map) (with_maps existing_map)
     = Some ((with_maps existing_map)\<lparr>TemplateLabels := existing_map ++\<^sub>f desired_map\<rparr>, True, None)
   \<and> fmlookup desired_map ''app'' = Some ''backend''
   \<and> fmlookup (existing_map ++\<^sub>f desired_map) ''app'' = Some ''backend''
   \<and> fmlookup desired_map ''owner'' = None
   \<and> fmlookup (existing_map ++\<^sub>f desired_map) ''owner'' = Some ''ops''"
proof -
  have a: "DeploymentAnnotationsMutator (with_maps desired_map) (with_maps existing_map)
     = Some ((with_maps existing_map)\<lparr>Annotations := existing_map ++\<^sub>f desired_map\<rparr>, True, None)"
    by (simp add: DeploymentAnnotationsMutator_def MergeMapStringString_def example_maps_differ
        with_maps_def)
  have t: "DeploymentPodTemplateAnnotationsMutator (with_maps desired_map) (with_maps existing_map)
     = Some ((with_maps existing_map)\<lparr>TemplateAnnotations := existing_map ++\<^sub>f desired_map\<rparr>, True, None)"
    by (simp add: DeploymentPodTemplateAnnotationsMutator_def MergeMapStringString_def
        example_maps_differ with_maps_def)
  have l: "DeploymentPodTemplateLabelsMutator (with_maps desired_map) (with_maps existing_map)
     = Some ((with_maps existing_map)\<lparr>TemplateLabels := existing_map ++\<^sub>f desired_map\<rparr>, True, None)"
    by (simp add: DeploymentPodTemplateLabelsMutator_def MergeMapStringString_def
        example_maps_differ with_maps_def)
  have d1: "fmlookup desired_map ''app'' = Some ''backend''"
    and d2: "fmlookup desired_map ''owner'' = None"
    and e2: "fmlookup existing_map ''owner'' = Some ''ops''"
    by (simp_all add: desired_map_def existing_map_def)
  from a t l d1 d2 e2
    map_merge_mutators [of "with_maps desired_map" "with_maps existing_map"
      "(with_maps existing_map)\<lparr>Annotations := existing_map ++\<^sub>f desired_map\<rparr>" True None
      "''app''" "''backend''"
      "(with_maps existing_map)\<lparr>TemplateAnnotations := existing_map ++\<^sub>f desired_map\<rparr>" True None
      "(with_maps existing_map)\<lparr>TemplateLabels := existing_map ++\<^sub>f desired_map\<rparr>" True None]
    map_merge_mutators [of "with_maps desired_map" "with_maps existing_map"
      "(with_maps existing_map)\<lparr>Annotations := existing_map ++\<^sub>f desired_map\<rparr>" True None
      "''owner''" "''backend''"
      "(with_maps existing_map)\<lparr>TemplateAnnotations := existing_map ++\<^sub>f desired_map\<rparr>" True None
      "(with_maps existing_map)\<lparr>TemplateLabels := existing_map ++\<^sub>f desired_map\<rparr>" True None]
  show ?thesis
    by (simp add: with_maps_def)
qed

subsection \<open>Removing the TLS volumes and mounts\<close>

lemma remove_volume_loop_cases:
  "elems volumes = pre @ rest \<Longrightarrow> length pre = idx \<Longrightarrow>
   (n \<notin> v_Name ` set rest \<and> remove_volume_loop rest idx n volumes = (volumes, False))
   \<or> (\<exists>a v b. rest = a @ v # b \<and> v_Name v = n \<and> n \<notin> v_Name ` set a
         \<and> remove_volume_loop rest idx n volumes = (Some (pre @ a @ b), True))"
proof (induction rest arbitrary: pre idx)
  case Nil
  then show ?case by simp
next
  case (Cons x rest)
  show ?case
  proof (cases "v_Name x = n")
    case True
    with Cons.prems have "x # rest = [] @ x # rest \<and> v_Name x = n \<and> n \<notin> v_Name ` set []
      \<and> remove_volume_loop (x # rest) idx n volumes = (Some (pre @ [] @ rest), True)"
      by simp
    then show ?thesis by blast
  next
    case False
    from Cons.prems have "elems volumes = (pre @ [x]) @ rest" "length (pre @ [x]) = Suc idx"
      by simp_all
    from Cons.IH [OF this] show ?thesis
    proof
      assume "n \<notin> v_Name ` set rest
        \<and> remove_volume_loop rest (Suc idx) n volumes = (volumes, False)"
      with False show ?thesis by simp
    next
      assume "\<exists>a v b. rest = a @ v # b \<and> v_Name v = n \<and> n \<notin> v_Name ` set a
         \<and> remove_volume_loop rest (Suc idx) n volumes = (Some ((pre @ [x]) @ a @ b), True)"
      then obtain a v b where r: "rest = a @ v # b" "v_Name v = n" "n \<notin> v_Name ` set a"
        "remove_volume_loop rest (Suc idx) n volumes = (Some ((pre @ [x]) @ a @ b), True)"
        by blast
      with False have "x # rest = (x # a) @ v # b \<and> v_Name v = n \<and> n \<notin> v_Name ` set (x # a)
        \<and> remove_volume_loop (x # rest) idx n volumes = (Some (pre @ (x # a) @ b), True)"
        by auto
      then show ?thesis by blast
    qed
  qed
qed

lemma remove_mount_loop_cases:
  "elems mounts = pre @ rest \<Longrightarrow> length pre = idx \<Longrightarrow>
   (n \<notin> vm_Name ` set rest \<and> remove_mount_loop rest idx n mounts = mounts)
   \<or> (\<exists>a v b. rest = a @ v # b \<and> vm_Name v = n \<and> n \<notin> vm_Name ` set a
         \<and> remove_mount_loop rest idx n mounts = Some (pre @ a @ b))"
proof (induction rest arbitrary: pre idx)
  case Nil
  then show ?case by simp
next
  case (Cons x rest)
  show ?case
  proof (cases "vm_Name x = n")
    case True
    with Cons.prems have "x # rest = [] @ x # rest \<and> vm_Name x = n \<and> n \<notin> vm_Name ` set []
      \<and> remove_mount_loop (x # rest) idx n mounts = Some (pre @ [] @ rest)"
      by simp
    then show ?thesis by blast
  next
    case False
    from Cons.prems have "elems mounts = (pre @ [x]) @ rest" "length (pre @ [x]) = Suc idx"
      by simp_all
    from Cons.IH [OF this] show ?thesis
    proof
      assume "n \<notin> vm_Name ` set rest \<and> remove_mount_loop rest (Suc idx) n mounts = mounts"
      with False show ?thesis by simp
    next
      assume "\<exists>a v b. rest = a @ v # b \<and> vm_Name v = n \<and> n \<notin> vm_Name ` set a
         \<and> remove_mount_loop rest (Suc idx) n mounts = Some ((pre @ [x]) @ a @ b)"
      then obtain a v b where r: "rest = a @ v # b" "vm_Name v = n" "n \<notin> vm_Name ` set a"
        "remove_mount_loop rest (Suc idx) n mounts = Some ((pre @ [x]) @ a @ b)"
        by blast
      with False have "x # rest = (x # a) @ v # b \<and> vm_Name v = n \<and> n \<notin> vm_Name ` set (x # a)
        \<and> remove_mount_loop (x # rest) idx n mounts = Some (pre @ (x # a) @ b)"
        by auto
      then show ?thesis by blast
    qed
  qed
qed

text \<open>One name: the flag, what stays, and the result when the name is borne once at most.\<close>

lemma remove_volume_loop_flag:
  assumes "remove_volume_loop (elems volumes) 0 n volumes = (volumes', removed)"
  shows "removed = (n \<in> v_Name ` set (elems volumes))"
    and "\<not> removed \<Longrightarrow> volumes' = volumes"
    and "set (elems volumes') \<subseteq> set (elems volumes)"
    and "\<And>v. v \<in> set (elems volumes) \<Longrightarrow> v_Name v \<noteq> n \<Longrightarrow> v \<in> set (elems volumes')"
  using remove_volume_loop_cases [of volumes "[]" "elems volumes" 0 n] assms
  by auto

lemma filter_one:
  assumes "length (filter (\<lambda>x. f x = n) (a @ v # b)) \<le> 1" and "f v = n"
  shows "filter (\<lambda>x. f x \<noteq> n) (a @ v # b) = filter (\<lambda>x. f x \<noteq> n) a @ b"
proof -
  from assms have "filter (\<lambda>x. f x = n) b = []" by simp
  then have "\<forall>x \<in> set b. f x \<noteq> n" by (simp add: filter_empty_conv)
  then have "filter (\<lambda>x. f x \<noteq> n) b = b" by (simp add: filter_id_conv)
  with assms(2) show ?thesis by simp
qed

lemma remove_volume_loop_once:
  assumes "length (filter (\<lambda>v. v_Name v = n) (elems volumes)) \<le> 1"
  shows "fst (remove_volume_loop (elems volumes) 0 n volumes)
           = map_option (filter (\<lambda>v. v_Name v \<noteq> n)) volumes"
proof -
  from remove_volume_loop_cases [of volumes "[]" "elems volumes" 0 n]
  consider "n \<notin> v_Name ` set (elems volumes)"
      "remove_volume_loop (elems volumes) 0 n volumes = (volumes, False)"
    | a v b where "elems volumes = a @ v # b" "v_Name v = n" "n \<notin> v_Name ` set a"
      "remove_volume_loop (elems volumes) 0 n volumes = (Some (a @ b), True)"
    by auto
  then show ?thesis
  proof cases
    case 1
    then have "filter (\<lambda>v. v_Name v \<noteq> n) (elems volumes) = elems volumes"
      by (auto simp: filter_id_conv)
    with 1 show ?thesis by (cases volumes) simp_all
  next
    case 2
    from 2(3) have "filter (\<lambda>v. v_Name v \<noteq> n) a = a" by (auto simp: filter_id_conv)
    with filter_one [of v_Name n a v b] assms 2
    have "filter (\<lambda>v. v_Name v \<noteq> n) (elems volumes) = a @ b" by simp
    with 2 show ?thesis by (cases volumes) auto
  qed
qed

lemma remove_mount_loop_once:
  assumes "length (filter (\<lambda>v. vm_Name v = n) (elems mounts)) \<le> 1"
  shows "remove_mount_loop (elems mounts) 0 n mounts
           = map_option (filter (\<lambda>v. vm_Name v \<noteq> n)) mounts"
proof -
  from remove_mount_loop_cases [of mounts "[]" "elems mounts" 0 n]
  consider "n \<notin> vm_Name ` set (elems mounts)"
      "remove_mount_loop (elems mounts) 0 n mounts = mounts"
    | a v b where "elems mounts = a @ v # b" "vm_Name v = n" "n \<notin> vm_Name ` set a"
      "remove_mount_loop (elems mounts) 0 n mounts = Some (a @ b)"
    by auto
  then show ?thesis
  proof cases
    case 1
    then have "filter (\<lambda>v. vm_Name v \<noteq> n) (elems mounts) = elems mounts"
      by (auto simp: filter_id_conv)
    with 1 show ?thesis by (cases mounts) simp_all
  next
    case 2
    from 2(3) have "filter (\<lambda>v. vm_Name v \<noteq> n) a = a" by (auto simp: filter_id_conv)
    with filter_one [of vm_Name n a v b] assms 2
    have "filter (\<lambda>v. vm_Name v \<noteq> n) (elems mounts) = a @ b" by simp
    with 2 show ?thesis by (cases mounts) auto
  qed
qed

lemma filter_filter_le:
  "length (filter P (filter Q xs)) \<le> length (filter P xs)"
  by (induction xs) auto

text \<open>All the names.\<close>

lemma remove_volumes_flag:
  "remove_volumes names volumes modified = (volumes', modified') \<Longrightarrow>
   modified' = (modified \<or> (\<exists>v \<in> set (elems volumes). v_Name v \<in> set names))
   \<and> (\<not> modified' \<longrightarrow> volumes' = volumes)"
proof (induction names arbitrary: volumes modified)
  case Nil
  then show ?case by simp
next
  case (Cons n names)
  obtain vs removed where one: "remove_volume_loop (elems volumes) 0 n volumes = (vs, removed)"
    by (cases "remove_volume_loop (elems volumes) 0 n volumes")
  note f = remove_volume_loop_flag [OF one]
  from Cons.prems one have "remove_volumes names vs (modified \<or> removed) = (volumes', modified')"
    by simp
  from Cons.IH [OF this]
  have m: "modified' = ((modified \<or> removed) \<or> (\<exists>v \<in> set (elems vs). v_Name v \<in> set names))"
    and u: "\<not> modified' \<longrightarrow> volumes' = vs" by simp_all
  have "(removed \<or> (\<exists>v \<in> set (elems vs). v_Name v \<in> set names))
          = (\<exists>v \<in> set (elems volumes). v_Name v \<in> set (n # names))"
  proof
    assume "removed \<or> (\<exists>v \<in> set (elems vs). v_Name v \<in> set names)"
    with f(1) f(3) show "\<exists>v \<in> set (elems volumes). v_Name v \<in> set (n # names)"
      by auto
  next
    assume "\<exists>v \<in> set (elems volumes). v_Name v \<in> set (n # names)"
    then obtain v where v: "v \<in> set (elems volumes)" "v_Name v \<in> set (n # names)" by blast
    show "removed \<or> (\<exists>v \<in> set (elems vs). v_Name v \<in> set names)"
    proof (cases "v_Name v = n")
      case True
      with v f(1) show ?thesis by auto
    next
      case False
      with v f(4) [of v] show ?thesis by auto
    qed
  qed
  with m have "modified' = (modified \<or> (\<exists>v \<in> set (elems volumes). v_Name v \<in> set (n # names)))"
    by blast
  moreover have "\<not> modified' \<longrightarrow> volumes' = volumes"
    using m u f(2) by auto
  ultimately show ?case by blast
qed

lemma remove_volumes_once:
  "\<forall>n \<in> set names. length (filter (\<lambda>v. v_Name v = n) (elems volumes)) \<le> 1 \<Longrightarrow>
   fst (remove_volumes names volumes modified)
     = map_option (filter (\<lambda>v. v_Name v \<notin> set names)) volumes"
proof (induction names arbitrary: volumes modified)
  case Nil
  then show ?case by (cases volumes) simp_all
next
  case (Cons n names)
  let ?vs = "map_option (filter (\<lambda>v. v_Name v \<noteq> n)) volumes"
  obtain vs removed where one: "remove_volume_loop (elems volumes) 0 n volumes = (vs, removed)"
    by (cases "remove_volume_loop (elems volumes) 0 n volumes")
  with remove_volume_loop_once [of n volumes] Cons.prems have vs: "vs = ?vs" by simp
  have e: "elems ?vs = filter (\<lambda>v. v_Name v \<noteq> n) (elems volumes)"
    by (cases volumes) simp_all
  have "\<forall>m \<in> set names. length (filter (\<lambda>v. v_Name v = m) (elems ?vs)) \<le> 1"
  proof
    fix m assume "m \<in> set names"
    with Cons.prems have "length (filter (\<lambda>v. v_Name v = m) (elems volumes)) \<le> 1" by simp
    with filter_filter_le [of "\<lambda>v. v_Name v = m" "\<lambda>v. v_Name v \<noteq> n" "elems volumes"] e
    show "length (filter (\<lambda>v. v_Name v = m) (elems ?vs)) \<le> 1" by simp
  qed
  from Cons.IH [OF this, of "modified \<or> removed"] one vs show ?case
    by (cases volumes) (auto simp: conj_commute)
qed

lemma remove_mounts_once:
  "\<forall>n \<in> set names. length (filter (\<lambda>v. vm_Name v = n) (elems mounts)) \<le> 1 \<Longrightarrow>
   remove_mounts names mounts = map_option (filter (\<lambda>v. vm_Name v \<notin> set names)) mounts"
proof (induction names arbitrary: mounts)
  case Nil
  then show ?case by (cases mounts) simp_all
next
  case (Cons n names)
  let ?ms = "map_option (filter (\<lambda>v. vm_Name v \<noteq> n)) mounts"
  from remove_mount_loop_once [of n mounts] Cons.prems
  have one: "remove_mount_loop (elems mounts) 0 n mounts = ?ms" by simp
  have e: "elems ?ms = filter (\<lambda>v. vm_Name v \<noteq> n) (elems mounts)"
    by (cases mounts) simp_all
  have "\<forall>m \<in> set names. length (filter (\<lambda>v. vm_Name v = m) (elems ?ms)) \<le> 1"
  proof
    fix m assume "m \<in> set names"
    with Cons.prems have "length (filter (\<lambda>v. vm_Name v = m) (elems mounts)) \<le> 1" by simp
    with filter_filter_le [of "\<lambda>v. vm_Name v = m" "\<lambda>v. vm_Name v \<noteq> n" "elems mounts"] e
    show "length (filter (\<lambda>v. vm_Name v = m) (elems ?ms)) \<le> 1" by simp
  qed
  from Cons.IH [OF this] one show ?case
    by (cases mounts) (auto simp: conj_commute)
qed

lemma once_iff:
  "once (map f xs) = (\<forall>n \<in> set volumeNamesToRemove. length (filter (\<lambda>x. f x = n) xs) \<le> 1)"
  by (simp add: once_def list_all_iff filter_map o_def)

lemma remove_container_mounts_once:
  "once (map vm_Name (elems (c_VolumeMounts c))) \<Longrightarrow> remove_container_mounts c = drop_tls_mounts c"
  by (simp add: remove_container_mounts_def drop_tls_mounts_def remove_mounts_once once_iff)

lemma remove_tls_result:
  "DeploymentRemoveTLSVolumesAndMountsMutator desired existing
     = Some (if \<exists>v \<in> set (elems (Volumes existing)). v_Name v \<in> set volumeNamesToRemove
             then existing\<lparr>Volumes := fst (remove_volumes volumeNamesToRemove (Volumes existing) False),
                    Containers := map_option (map remove_container_mounts) (Containers existing),
                    InitContainers :=
                      map_option (map remove_container_mounts) (InitContainers existing)\<rparr>
             else existing,
             \<exists>v \<in> set (elems (Volumes existing)). v_Name v \<in> set volumeNamesToRemove, None)"
proof (cases "Volumes existing")
  case None
  then show ?thesis by (simp add: DeploymentRemoveTLSVolumesAndMountsMutator_def)
next
  case (Some xs)
  obtain vs vm where r: "remove_volumes volumeNamesToRemove (Volumes existing) False = (vs, vm)"
    by (cases "remove_volumes volumeNamesToRemove (Volumes existing) False")
  from remove_volumes_flag [OF r]
  have vm: "vm = (\<exists>v \<in> set (elems (Volumes existing)). v_Name v \<in> set volumeNamesToRemove)"
    and u: "\<not> vm \<longrightarrow> vs = Volumes existing" by simp_all
  show ?thesis
  proof (cases vm)
    case True
    with Some r vm show ?thesis
      by (simp add: DeploymentRemoveTLSVolumesAndMountsMutator_def)
  next
    case False
    with u have "existing\<lparr>Volumes := vs\<rparr> = existing" by simp
    with False Some r vm show ?thesis
      by (simp add: DeploymentRemoveTLSVolumesAndMountsMutator_def)
  qed
qed

lemma remove_tls_nothing_left:
  assumes "\<forall>v \<in> set (elems (Volumes existing)). v_Name v \<notin> set volumeNamesToRemove"
  shows "DeploymentRemoveTLSVolumesAndMountsMutator desired existing = Some (existing, False, None)"
  using assms remove_tls_result [of desired existing] by auto

text \<open>
  C7, as amended. For every existing Deployment the mutator returns, without an error.
  Changed is true exactly when a volume named "writable-tls" or "tls-secret" is
  present; when none is, existing is left as it was, its volume mounts included.
  Nothing changes but the volumes and the volume mounts of the containers and init
  containers. When each of the two names is borne by at most one volume, the volumes
  of those names are deleted and the others kept in their order, and a second call on
  the result returns changed false and leaves it as it is. When changed is true, the
  containers and the init containers keep their number, and from every one of them in
  which each of the two names is borne by at most one mount, the mounts of those names
  are deleted and the others kept in their order.
\<close>

theorem remove_tls_volumes_and_mounts:
  "(\<exists>r. DeploymentRemoveTLSVolumesAndMountsMutator desired existing = Some r)
   \<and> (DeploymentRemoveTLSVolumesAndMountsMutator desired existing = Some (existing', changed, err) \<longrightarrow>
        err = None
        \<and> changed = (\<exists>v \<in> set (elems (Volumes existing)). v_Name v \<in> set volumeNamesToRemove)
        \<and> (\<not> changed \<longrightarrow> existing' = existing)
        \<and> existing' = existing\<lparr>Volumes := Volumes existing', Containers := Containers existing',
                          InitContainers := InitContainers existing'\<rparr>
        \<and> (once (map v_Name (elems (Volumes existing))) \<longrightarrow>
              Volumes existing'
                = map_option (filter (\<lambda>v. v_Name v \<notin> set volumeNamesToRemove)) (Volumes existing)
              \<and> DeploymentRemoveTLSVolumesAndMountsMutator desired existing'
                  = Some (existing', False, None))
        \<and> (changed \<longrightarrow>
              len (Containers existing') = len (Containers existing)
              \<and> len (InitContainers existing') = len (InitContainers existing)
              \<and> (\<forall>i < len (Containers existing).
                    elems (Containers existing') ! i
                      = (elems (Containers existing) ! i)
                          \<lparr>c_VolumeMounts := c_VolumeMounts (elems (Containers existing') ! i)\<rparr>
                    \<and> (once (map vm_Name (elems (c_VolumeMounts (elems (Containers existing) ! i)))) \<longrightarrow>
                         elems (Containers existing') ! i
                           = drop_tls_mounts (elems (Containers existing) ! i)))
              \<and> (\<forall>i < len (InitContainers existing).
                    elems (InitContainers existing') ! i
                      = (elems (InitContainers existing) ! i)
                          \<lparr>c_VolumeMounts := c_VolumeMounts (elems (InitContainers existing') ! i)\<rparr>
                    \<and> (once (map vm_Name (elems (c_VolumeMounts (elems (InitContainers existing) ! i)))) \<longrightarrow>
                         elems (InitContainers existing') ! i
                           = drop_tls_mounts (elems (InitContainers existing) ! i)))))"
proof (intro conjI impI)
  let ?P = "\<exists>v \<in> set (elems (Volumes existing)). v_Name v \<in> set volumeNamesToRemove"
  note res = remove_tls_result [of desired existing]
  from res show "\<exists>r. DeploymentRemoveTLSVolumesAndMountsMutator desired existing = Some r"
    by simp
  assume "DeploymentRemoveTLSVolumesAndMountsMutator desired existing = Some (existing', changed, err)"
  with res have err: "err = None" and ch: "changed = ?P"
    and e': "existing' =
       (if changed
        then existing\<lparr>Volumes := fst (remove_volumes volumeNamesToRemove (Volumes existing) False),
               Containers := map_option (map remove_container_mounts) (Containers existing),
               InitContainers := map_option (map remove_container_mounts) (InitContainers existing)\<rparr>
        else existing)"
    by simp_all
  show "err = None" by (rule err)
  show "changed = ?P" by (rule ch)
  show "existing' = existing\<lparr>Volumes := Volumes existing', Containers := Containers existing',
                          InitContainers := InitContainers existing'\<rparr>"
    using e' by (cases changed) simp_all
  { assume "\<not> changed"
    with e' show "existing' = existing" by simp }
  have cm: "elems (map_option (map remove_container_mounts) cs) ! i
              = (elems cs ! i)\<lparr>c_VolumeMounts :=
                   c_VolumeMounts (elems (map_option (map remove_container_mounts) cs) ! i)\<rparr>
            \<and> (once (map vm_Name (elems (c_VolumeMounts (elems cs ! i)))) \<longrightarrow>
                 elems (map_option (map remove_container_mounts) cs) ! i
                   = drop_tls_mounts (elems cs ! i))"
    if "i < len cs" for cs i
    using that
    by (cases cs) (auto simp: remove_container_mounts_once, simp add: remove_container_mounts_def)
  { assume c: changed
    with e' show "len (Containers existing') = len (Containers existing)"
      by (cases "Containers existing") simp_all
    from c e' show "len (InitContainers existing') = len (InitContainers existing)"
      by (cases "InitContainers existing") simp_all
    from c e' cm [of _ "Containers existing"]
    show "\<forall>i < len (Containers existing).
            elems (Containers existing') ! i
              = (elems (Containers existing) ! i)
                  \<lparr>c_VolumeMounts := c_VolumeMounts (elems (Containers existing') ! i)\<rparr>
            \<and> (once (map vm_Name (elems (c_VolumeMounts (elems (Containers existing) ! i)))) \<longrightarrow>
                 elems (Containers existing') ! i = drop_tls_mounts (elems (Containers existing) ! i))"
      by simp
    from c e' cm [of _ "InitContainers existing"]
    show "\<forall>i < len (InitContainers existing).
            elems (InitContainers existing') ! i
              = (elems (InitContainers existing) ! i)
                  \<lparr>c_VolumeMounts := c_VolumeMounts (elems (InitContainers existing') ! i)\<rparr>
            \<and> (once (map vm_Name (elems (c_VolumeMounts (elems (InitContainers existing) ! i)))) \<longrightarrow>
                 elems (InitContainers existing') ! i
                   = drop_tls_mounts (elems (InitContainers existing) ! i))"
      by simp }
  { assume o: "once (map v_Name (elems (Volumes existing)))"
    then have f: "fst (remove_volumes volumeNamesToRemove (Volumes existing) False)
                = map_option (filter (\<lambda>v. v_Name v \<notin> set volumeNamesToRemove)) (Volumes existing)"
      by (simp add: remove_volumes_once once_iff)
    show vs: "Volumes existing'
           = map_option (filter (\<lambda>v. v_Name v \<notin> set volumeNamesToRemove)) (Volumes existing)"
    proof (cases changed)
      case True
      with e' f show ?thesis by simp
    next
      case False
      with ch have "filter (\<lambda>v. v_Name v \<notin> set volumeNamesToRemove) (elems (Volumes existing))
                      = elems (Volumes existing)"
        by (simp add: filter_id_conv)
      with False e' show ?thesis by (cases "Volumes existing") simp_all
    qed
    then have "\<forall>v \<in> set (elems (Volumes existing')). v_Name v \<notin> set volumeNamesToRemove"
      by (cases "Volumes existing") simp_all
    then show "DeploymentRemoveTLSVolumesAndMountsMutator desired existing'
                 = Some (existing', False, None)"
      by (rule remove_tls_nothing_left) }
qed

theorem remove_tls_volumes_and_mounts_witness:
  "once (map v_Name (elems (Volumes (with_volumes [volume ''tls-secret'', volume ''data'']
       [mount ''data'' ''/d1'', mount ''tls-secret'' ''/tls'', mount ''data'' ''/d2'']))))
   \<and> 0 < len (Containers (with_volumes [volume ''tls-secret'', volume ''data'']
       [mount ''data'' ''/d1'', mount ''tls-secret'' ''/tls'', mount ''data'' ''/d2'']))
   \<and> once (map vm_Name (elems (c_VolumeMounts (elems (Containers
       (with_volumes [volume ''tls-secret'', volume ''data'']
          [mount ''data'' ''/d1'', mount ''tls-secret'' ''/tls'', mount ''data'' ''/d2''])) ! 0))))
   \<and> DeploymentRemoveTLSVolumesAndMountsMutator example_deployment
        (with_volumes [volume ''tls-secret'', volume ''data'']
           [mount ''data'' ''/d1'', mount ''tls-secret'' ''/tls'', mount ''data'' ''/d2''])
       = Some (with_volumes [volume ''data''] [mount ''data'' ''/d1'', mount ''data'' ''/d2''],
               True, None)
   \<and> elems (Containers (with_volumes [volume ''data'']
               [mount ''data'' ''/d1'', mount ''data'' ''/d2''])) ! 0
       = drop_tls_mounts (elems (Containers (with_volumes [volume ''tls-secret'', volume ''data'']
           [mount ''data'' ''/d1'', mount ''tls-secret'' ''/tls'', mount ''data'' ''/d2''])) ! 0)
   \<and> DeploymentRemoveTLSVolumesAndMountsMutator example_deployment
        (with_volumes [volume ''data''] [mount ''data'' ''/d1'', mount ''data'' ''/d2''])
       = Some (with_volumes [volume ''data''] [mount ''data'' ''/d1'', mount ''data'' ''/d2''],
               False, None)"
proof -
  let ?e = "with_volumes [volume ''tls-secret'', volume ''data'']
              [mount ''data'' ''/d1'', mount ''tls-secret'' ''/tls'', mount ''data'' ''/d2'']"
  let ?e' = "with_volumes [volume ''data''] [mount ''data'' ''/d1'', mount ''data'' ''/d2'']"
  have o: "once (map v_Name (elems (Volumes ?e)))"
    by (simp add: once_def volumeNamesToRemove_def with_volumes_def volume_def)
  have l: "0 < len (Containers ?e)"
    by (simp add: with_volumes_def)
  have m: "once (map vm_Name (elems (c_VolumeMounts (elems (Containers ?e) ! 0))))"
    by (simp add: once_def volumeNamesToRemove_def with_volumes_def mount_def)
  have r: "DeploymentRemoveTLSVolumesAndMountsMutator example_deployment ?e = Some (?e', True, None)"
    by (simp add: DeploymentRemoveTLSVolumesAndMountsMutator_def volumeNamesToRemove_def
        remove_container_mounts_def example_defs)
  from remove_tls_volumes_and_mounts [of example_deployment ?e ?e' True None] o l m r
  show ?thesis by blast
qed

text \<open>
  C7 as stated fails. A container that has a mount named "tls-secret" while no volume
  of a name to remove is present: the mount is there to remove, but the mutator returns
  changed false and leaves the mount, since mounts are visited only after a volume was
  removed. With two mounts of the name "tls-secret" in one container, only the first
  is deleted. With two volumes of the name "tls-secret", the first call deletes one and
  the second call deletes the other and returns changed true.
\<close>

theorem remove_tls_counterexample:
  "DeploymentRemoveTLSVolumesAndMountsMutator example_deployment
       (with_volumes [volume ''data''] [mount ''tls-secret'' ''/tls''])
     = Some (with_volumes [volume ''data''] [mount ''tls-secret'' ''/tls''], False, None)
   \<and> DeploymentRemoveTLSVolumesAndMountsMutator example_deployment
       (with_volumes [volume ''tls-secret''] [mount ''tls-secret'' ''/a'', mount ''tls-secret'' ''/b''])
     = Some (with_volumes [] [mount ''tls-secret'' ''/b''], True, None)
   \<and> DeploymentRemoveTLSVolumesAndMountsMutator example_deployment
       (with_volumes [volume ''tls-secret'', volume ''tls-secret''] [])
     = Some (with_volumes [volume ''tls-secret''] [], True, None)
   \<and> DeploymentRemoveTLSVolumesAndMountsMutator example_deployment
       (with_volumes [volume ''tls-secret''] [])
     = Some (with_volumes [] [], True, None)"
  by (simp add: DeploymentRemoveTLSVolumesAndMountsMutator_def volumeNamesToRemove_def
      remove_container_mounts_def example_defs)

end
